theory Spec2Isabelle
  imports Complex_Main
begin

section \<open>Data model\<close>

text \<open>
  The checklist entries of \<^verbatim>\<open>OngoingProjectCard\<close> (DocumentCard.jsx). A test item is
  \<^verbatim>\<open>{ test, done, date }\<close>, a stage is \<^verbatim>\<open>{ stage, done, date, isStatic }\<close>. The
  timestamp \<^verbatim>\<open>date\<close> is an ISO string or \<^verbatim>\<open>null\<close>; \<^verbatim>\<open>isStatic\<close> is a tag the card
  adds itself, so a persisted stage may lack it (\<open>None\<close>, which JavaScript reads as falsy).
  Both records have fields \<open>done\<close> and \<open>date\<close>: the unqualified names are the stage's,
  the test item's are written \<open>Test.done\<close> and \<open>Test.date\<close>.
\<close>

record Test =
  test :: string
  "done" :: bool
  date :: "string option"

record Stage =
  stage :: string
  "done" :: bool
  date :: "string option"
  isStatic :: "bool option"

definition STATIC_PENTEST_STAGES :: "string list" where
  "STATIC_PENTEST_STAGES =
     [''Ticket Assigned'',
      ''Kickoff'',
      ''Accounts Received'',
      ''Enumeration'',
      ''Manual Testing'',
      ''Automated Testing'',
      ''Lateral Movement'',
      ''Exploitation'',
      ''Known CVE'',
      ''Compliance'',
      ''Reporting'',
      ''Shared report 1on1 to PSM'',
      ''Uploaded report on Sharepoint'',
      ''Sent Emails to Stakeholders'',
      ''Last Jira Ticket Closed'']"

section \<open>Calendar utility\<close>

text \<open>
  A JavaScript \<^verbatim>\<open>Date\<close> is modelled by its local wall-clock time in milliseconds, counted
  from local midnight of 1970-01-01 (a Thursday), with days of exactly 24 hours (no
  daylight-saving shift). \<^verbatim>\<open>setHours(0, 0, 0, 0)\<close> drops the time of day, \<^verbatim>\<open>getDay\<close> is
  0 for Sunday up to 6 for Saturday.
\<close>

type_synonym Date = int

definition MS_PER_DAY :: int where
  "MS_PER_DAY = 86400000"

definition setHours0 :: "Date \<Rightarrow> Date" where
  "setHours0 d = d - d mod MS_PER_DAY"

definition dayIndex :: "Date \<Rightarrow> int" where
  "dayIndex d = d div MS_PER_DAY"

definition weekdayOfIndex :: "int \<Rightarrow> int" where
  "weekdayOfIndex n = (n + 4) mod 7"

definition getDay :: "Date \<Rightarrow> int" where
  "getDay d = weekdayOfIndex (dayIndex d)"

text \<open>date-fns \<^verbatim>\<open>isWeekend\<close>: the day is a Sunday (0) or a Saturday (6).\<close>

definition isWeekend :: "Date \<Rightarrow> bool" where
  "isWeekend d = (getDay d = 0 \<or> getDay d = 6)"

text \<open>
  date-fns \<^verbatim>\<open>eachDayOfInterval({start, end})\<close>: starting at the midnight of \<^verbatim>\<open>start\<close>, push
  the current day and step one day forward while the current day is not after \<^verbatim>\<open>end\<close>.
\<close>

function eachDayLoop :: "Date \<Rightarrow> Date \<Rightarrow> Date list" where
  "eachDayLoop currentDate endTime =
     (if currentDate \<le> endTime
      then currentDate # eachDayLoop (currentDate + MS_PER_DAY) endTime
      else [])"
  by pat_completeness auto
termination
  by (relation "measure (\<lambda>(c, e). nat (e - c + 1))") (auto simp: MS_PER_DAY_def)

definition eachDayOfInterval :: "Date \<Rightarrow> Date \<Rightarrow> Date list" where
  "eachDayOfInterval start end = eachDayLoop (setHours0 start) end"

text \<open>
  \<^verbatim>\<open>calculateBusinessDays(startDate, endDate)\<close>; a missing date (\<^verbatim>\<open>null\<close>) is \<open>None\<close>.
\<close>

definition calculateBusinessDays :: "Date option \<Rightarrow> Date option \<Rightarrow> nat" where
  "calculateBusinessDays startDate endDate =
     (case (startDate, endDate) of
        (Some s, Some e) \<Rightarrow>
          (let start = setHours0 s;
               end = setHours0 e
           in if start > end then 0
              else
                let days = eachDayOfInterval start end;
                    businessDays = filter (\<lambda>day. \<not> isWeekend day) days
                in length businessDays)
      | _ \<Rightarrow> 0)"

section \<open>Progress calculator\<close>

text \<open>
  A JavaScript number is an IEEE 754 double. A finite double is modelled by the rational
  it denotes, and an arithmetic operation returns the exact result rounded to the nearest
  double (53 significant bits), a tie going to the even significand. Only the normal
  range is modelled: the numbers here are array lengths, their quotients and small
  multiples, far from overflow and from subnormal values.
\<close>

text \<open>\<open>ilog2 n\<close> is the position of the leading bit of \<open>n \<ge> 1\<close>.\<close>

function ilog2 :: "int \<Rightarrow> int" where
  "ilog2 n = (if n < 2 then 0 else 1 + ilog2 (n div 2))"
  by pat_completeness auto
termination
  by (relation "measure nat") auto

declare ilog2.simps [simp del]

definition pow2 :: "int \<Rightarrow> rat" where
  "pow2 k = (if 0 \<le> k then 2 ^ nat k else 1 / 2 ^ nat (- k))"

definition roundHalfEven :: "rat \<Rightarrow> int" where
  "roundHalfEven x =
     (let f = \<lfloor>x\<rfloor>;
          d = x - of_int f
      in if d < 1 / 2 then f
         else if 1 / 2 < d then f + 1
         else if even f then f else f + 1)"

text \<open>
  \<open>toDouble x\<close>: with \<open>2 ^ e \<le> \<bar>x\<bar> < 2 ^ (e + 1)\<close> the doubles around \<open>x\<close> are the
  multiples of \<open>2 ^ (e - 52)\<close>; \<open>e\<close> is found from the bit lengths of numerator and
  denominator, which give it up to one.
\<close>

definition toDouble :: "rat \<Rightarrow> rat" where
  "toDouble x =
     (if x = 0 then 0
      else
        let a = \<bar>x\<bar>;
            (n, d) = quotient_of a;
            e0 = ilog2 n - ilog2 d;
            e = (if pow2 e0 \<le> a then e0 else e0 - 1);
            ulp = pow2 (e - 52);
            m = roundHalfEven (a / ulp)
        in sgn x * (of_int m * ulp))"

definition js_div :: "rat \<Rightarrow> rat \<Rightarrow> rat" where
  "js_div a b = toDouble (a / b)"

definition js_mul :: "rat \<Rightarrow> rat \<Rightarrow> rat" where
  "js_mul a b = toDouble (a * b)"

definition js_add :: "rat \<Rightarrow> rat \<Rightarrow> rat" where
  "js_add a b = toDouble (a + b)"

text \<open>
  \<^verbatim>\<open>Math.round\<close> rounds a double to the nearest integer, a tie going up; it is exact.
\<close>

definition Math_round :: "rat \<Rightarrow> int" where
  "Math_round x = \<lfloor>x + 1 / 2\<rfloor>"

definition PREPARATION_STAGES :: "string list" where
  "PREPARATION_STAGES = [''Kickoff'', ''Accounts Received'']"

definition MAIN_TESTING_STAGES :: "string list" where
  "MAIN_TESTING_STAGES =
     [''Enumeration'', ''Manual Testing'', ''Automated Testing'',
      ''Lateral Movement'', ''Exploitation'', ''Known CVE'', ''Compliance'']"

definition FINAL_STAGES :: "string list" where
  "FINAL_STAGES =
     [''Reporting'', ''Shared report 1on1 to PSM'',
      ''Uploaded report on Sharepoint'', ''Sent Emails to Stakeholders'',
      ''Last Jira Ticket Closed'']"

definition groupCompleted :: "string list \<Rightarrow> Stage list \<Rightarrow> nat" where
  "groupCompleted names stages =
     length (filter (\<lambda>s. stage s \<in> set names \<and> done s) stages)"

definition groupTotal :: "string list \<Rightarrow> Stage list \<Rightarrow> nat" where
  "groupTotal names stages =
     length (filter (\<lambda>s. stage s \<in> set names) stages)"

definition groupPct :: "nat \<Rightarrow> nat \<Rightarrow> rat \<Rightarrow> rat" where
  "groupPct completedCount totalCount weight =
     (if totalCount > 0
      then js_mul (js_div (of_nat completedCount) (of_nat totalCount)) weight
      else 0)"

definition calculateWeightedProgress :: "Stage list \<Rightarrow> int" where
  "calculateWeightedProgress stages =
     (let prepCompleted = groupCompleted PREPARATION_STAGES stages;
          prepTotal = groupTotal PREPARATION_STAGES stages;
          mainCompleted = groupCompleted MAIN_TESTING_STAGES stages;
          mainTotal = groupTotal MAIN_TESTING_STAGES stages;
          finalCompleted = groupCompleted FINAL_STAGES stages;
          finalTotal = groupTotal FINAL_STAGES stages;
          prepPct = groupPct prepCompleted prepTotal 10;
          mainPct = groupPct mainCompleted mainTotal 80;
          finalPct = groupPct finalCompleted finalTotal 10
      in Math_round (js_add (js_add prepPct mainPct) finalPct))"

text \<open>
  The handlers \<^verbatim>\<open>handleToggleStage\<close> and \<^verbatim>\<open>handleDeleteStage\<close> repeat the computation
  inline, with the group lists written out as literals.
\<close>

definition inlineWeightedProgress :: "Stage list \<Rightarrow> int" where
  "inlineWeightedProgress updatedStages =
     (let prepCompleted = length (filter (\<lambda>s. stage s \<in> set [''Kickoff'', ''Accounts Received''] \<and> done s) updatedStages);
          prepTotal = length (filter (\<lambda>s. stage s \<in> set [''Kickoff'', ''Accounts Received'']) updatedStages);
          mainCompleted = length (filter (\<lambda>s. stage s \<in> set [''Enumeration'', ''Manual Testing'', ''Automated Testing'', ''Lateral Movement'', ''Exploitation'', ''Known CVE'', ''Compliance''] \<and> done s) updatedStages);
          mainTotal = length (filter (\<lambda>s. stage s \<in> set [''Enumeration'', ''Manual Testing'', ''Automated Testing'', ''Lateral Movement'', ''Exploitation'', ''Known CVE'', ''Compliance'']) updatedStages);
          finalCompleted = length (filter (\<lambda>s. stage s \<in> set [''Reporting'', ''Shared report 1on1 to PSM'', ''Uploaded report on Sharepoint'', ''Sent Emails to Stakeholders'', ''Last Jira Ticket Closed''] \<and> done s) updatedStages);
          finalTotal = length (filter (\<lambda>s. stage s \<in> set [''Reporting'', ''Shared report 1on1 to PSM'', ''Uploaded report on Sharepoint'', ''Sent Emails to Stakeholders'', ''Last Jira Ticket Closed'']) updatedStages)
      in Math_round
           (js_add
              (js_add
                 (if prepTotal > 0
                  then js_mul (js_div (of_nat prepCompleted) (of_nat prepTotal)) 10 else 0)
                 (if mainTotal > 0
                  then js_mul (js_div (of_nat mainCompleted) (of_nat mainTotal)) 80 else 0))
              (if finalTotal > 0
               then js_mul (js_div (of_nat finalCompleted) (of_nat finalTotal)) 10 else 0)))"

section \<open>Project, component state and effects\<close>

text \<open>
  The fields of the \<^verbatim>\<open>project\<close> prop that the card reads; an absent or \<^verbatim>\<open>null\<close> field is
  \<open>None\<close>.
\<close>

record Project =
  project_id :: string
  pentest_stages :: "Stage list option"
  tests_checklist :: "Test list option"
  start_date :: "Date option"
  completed_date :: "string option"
  leave_days :: "int option"

text \<open>
  The payloads of \<^verbatim>\<open>updateProject(project.id, payload)\<close> that the modelled code sends:
  \<^verbatim>\<open>{pentest_stages, progress_percentage}\<close>, \<^verbatim>\<open>{tests_checklist}\<close> and
  \<^verbatim>\<open>{status, completed_date, leave_days, business_days_worked}\<close>.
\<close>

datatype ProjectData =
    StagesAndProgress "Stage list" int
  | TestsChecklist "Test list"
  | Completion string string int int

text \<open>
  \<^verbatim>\<open>currentStagesKey\<close> is \<^verbatim>\<open>JSON.stringify\<close> of the list of \<^verbatim>\<open>{stage, done}\<close> pairs, or the
  string \<^verbatim>\<open>'null'\<close>. The key is modelled by the value it serialises.
\<close>

datatype StagesKey = KeyNull | KeyStages "(string \<times> bool) list"

text \<open>
  The React state of the card (\<^verbatim>\<open>useState\<close>) and the ref \<^verbatim>\<open>lastProcessedStagesRef\<close>
  (\<^verbatim>\<open>useRef(null)\<close>, \<open>None\<close> before the first pass).
\<close>

record Card =
  pentestStages :: "Stage list"
  tests :: "Test list"
  isSaving :: bool
  leaveDays :: int
  isCompleted :: bool
  showCompleteModal :: bool
  lastProcessedStagesRef :: "StagesKey option"

text \<open>
  What one run of a handler or of the effect leaves behind: the component state, the
  \<^verbatim>\<open>updateProject\<close> calls issued (project id and payload), the \<^verbatim>\<open>alert\<close> messages shown
  and whether \<^verbatim>\<open>onUpdate()\<close> was called.
\<close>

record Effects =
  component :: Card
  updateProjectCalls :: "(string \<times> ProjectData) list"
  alerts :: "string list"
  onUpdateCalled :: bool

definition noEffects :: "Card \<Rightarrow> Effects" where
  "noEffects c =
     \<lparr>component = c, updateProjectCalls = [], alerts = [], onUpdateCalled = False\<rparr>"

text \<open>Reading a property of \<^verbatim>\<open>undefined\<close> (an index outside the array) throws.\<close>

datatype error = TypeError

section \<open>Stage reconciler\<close>

text \<open>\<^verbatim>\<open>initializePentestStages(existingStages)\<close>, the initial value of \<^verbatim>\<open>pentestStages\<close>.\<close>

definition existingMap :: "Stage list option \<Rightarrow> (string \<rightharpoonup> Stage)" where
  "existingMap existingStages =
     (case existingStages of
        Some xs \<Rightarrow>
          (if length xs > 0 then fold (\<lambda>s m. m(stage s \<mapsto> s)) xs Map.empty
           else Map.empty)
      | None \<Rightarrow> Map.empty)"

definition initStaticStages :: "Stage list option \<Rightarrow> Stage list" where
  "initStaticStages existingStages =
     map (\<lambda>name.
            case existingMap existingStages name of
              Some existing \<Rightarrow> existing\<lparr>isStatic := Some True\<rparr>
            | None \<Rightarrow> \<lparr>stage = name, done = False, date = None, isStatic = Some True\<rparr>)
       STATIC_PENTEST_STAGES"

definition initCustomStages :: "Stage list option \<Rightarrow> Stage list" where
  "initCustomStages existingStages =
     (case existingStages of
        Some xs \<Rightarrow> filter (\<lambda>s. stage s \<notin> set STATIC_PENTEST_STAGES) xs
      | None \<Rightarrow> [])"

definition initializePentestStages :: "Stage list option \<Rightarrow> Stage list" where
  "initializePentestStages existingStages =
     (let staticStages = initStaticStages existingStages;
          customStages = initCustomStages existingStages
      in staticStages @ customStages)"

definition initialCard :: "Project \<Rightarrow> Card" where
  "initialCard project =
     \<lparr>pentestStages = initializePentestStages (pentest_stages project),
      tests = (case tests_checklist project of Some ts \<Rightarrow> ts | None \<Rightarrow> []),
      isSaving = False,
      leaveDays = (case leave_days project of Some n \<Rightarrow> n | None \<Rightarrow> 0),
      isCompleted = (completed_date project \<noteq> None \<and> completed_date project \<noteq> Some []),
      showCompleteModal = False,
      lastProcessedStagesRef = None\<rparr>"

text \<open>The reconciliation \<^verbatim>\<open>useEffect\<close> on \<^verbatim>\<open>[project.id, project.pentest_stages]\<close>.\<close>

definition currentStagesKey :: "Stage list option \<Rightarrow> StagesKey" where
  "currentStagesKey stages =
     (case stages of
        Some xs \<Rightarrow> KeyStages (map (\<lambda>s. (stage s, done s)) xs)
      | None \<Rightarrow> KeyNull)"

definition existingStagesOf :: "Stage list \<Rightarrow> Stage list" where
  "existingStagesOf stages =
     map (\<lambda>s. s\<lparr>isStatic := Some (stage s \<in> set STATIC_PENTEST_STAGES)\<rparr>) stages"

definition staticStagesPresent :: "Stage list \<Rightarrow> Stage list" where
  "staticStagesPresent stages = filter (\<lambda>s. isStatic s = Some True) (existingStagesOf stages)"

definition customStages :: "Stage list \<Rightarrow> Stage list" where
  "customStages stages = filter (\<lambda>s. isStatic s \<noteq> Some True) (existingStagesOf stages)"

definition reorderedStaticStages :: "Stage list \<Rightarrow> Stage list" where
  "reorderedStaticStages stages =
     List.map_filter (\<lambda>staticStage. find (\<lambda>s. stage s = staticStage) (staticStagesPresent stages))
       STATIC_PENTEST_STAGES"

definition updatedStagesOf :: "Stage list \<Rightarrow> Stage list" where
  "updatedStagesOf stages = reorderedStaticStages stages @ customStages stages"

definition staticStagesInProject :: "Stage list \<Rightarrow> string list" where
  "staticStagesInProject stages =
     map stage (filter (\<lambda>s. stage s \<in> set STATIC_PENTEST_STAGES) stages)"

definition staticStagesInOrder :: "Stage list \<Rightarrow> string list" where
  "staticStagesInOrder stages = map stage (reorderedStaticStages stages)"

text \<open>
  \<^verbatim>\<open>orderChanged\<close>: the lengths differ, or (only then evaluated, so every index is in
  range) some position holds a different name.
\<close>

definition orderChanged :: "Stage list \<Rightarrow> bool" where
  "orderChanged stages =
     (let inProject = staticStagesInProject stages;
          inOrder = staticStagesInOrder stages
      in if length inProject \<noteq> length inOrder then True
         else list_ex (\<lambda>idx. inProject ! idx \<noteq> inOrder ! idx) [0 ..< length inProject])"

text \<open>
  The progress value computed inside the effect for the corrective write
  (\<^verbatim>\<open>newProgress\<close>).
\<close>

definition effectProgress :: "Stage list \<Rightarrow> int" where
  "effectProgress updatedStages =
     (let completed = length (filter done updatedStages);
          totalStages = length updatedStages
      in if totalStages > 0
         then Math_round (js_mul (js_div (of_nat completed) (of_nat totalStages)) 100)
         else 0)"

definition initialStages :: "Stage list" where
  "initialStages =
     map (\<lambda>name. \<lparr>stage = name, done = False, date = None, isStatic = Some True\<rparr>)
       STATIC_PENTEST_STAGES"

text \<open>
  One run of the effect. The comparison of the two \<^verbatim>\<open>JSON.stringify\<close> renderings
  (\<^verbatim>\<open>stagesChanged\<close>) is modelled by inequality of the lists; either way the view
  afterwards has the content of \<^verbatim>\<open>updatedStages\<close>. The corrective \<^verbatim>\<open>updateProject\<close>
  call, whose failure the source only logs, is deferred by \<^verbatim>\<open>setTimeout\<close> for 100 ms; it
  is recorded as issued by the run, with the payload as the run computed it, which is what
  is sent when no handler changes the stage objects before the timer fires.
\<close>

definition reconcileEffect :: "Card \<Rightarrow> Project \<Rightarrow> Effects" where
  "reconcileEffect c project =
     (let key = currentStagesKey (pentest_stages project)
      in if lastProcessedStagesRef c = Some key then noEffects c
         else
           let c1 = c\<lparr>lastProcessedStagesRef := Some key\<rparr>
           in case pentest_stages project of
                Some stages \<Rightarrow>
                  (let updatedStages = updatedStagesOf stages;
                       stagesChanged = (pentestStages c \<noteq> updatedStages);
                       c2 = (if stagesChanged then c1\<lparr>pentestStages := updatedStages\<rparr> else c1)
                   in if orderChanged stages \<and> length stages > 0 \<and>
                         length (staticStagesInProject stages) = length (staticStagesInOrder stages)
                      then (noEffects c2)
                             \<lparr>updateProjectCalls :=
                                [(project_id project,
                                  StagesAndProgress updatedStages (effectProgress updatedStages))]\<rparr>
                      else noEffects c2)
              | None \<Rightarrow> noEffects (c1\<lparr>pentestStages := initialStages\<rparr>))"

text \<open>Mounting the card: the initial state, then the first run of the effect.\<close>

definition mount :: "Project \<Rightarrow> Effects" where
  "mount project = reconcileEffect (initialCard project) project"

section \<open>Lifecycle controller\<close>

text \<open>
  Each handler runs to the end of its \<^verbatim>\<open>finally\<close> block. \<open>now\<close> is the reading of
  \<^verbatim>\<open>new Date()\<close>, \<open>toISOString\<close> its rendering as a string, and \<open>ok\<close> tells whether the
  \<^verbatim>\<open>updateProject\<close> promise resolves (otherwise the \<^verbatim>\<open>catch\<close> block alerts).
\<close>

definition afterUpdate :: "bool \<Rightarrow> string \<Rightarrow> Card \<Rightarrow> (string \<times> ProjectData) \<Rightarrow> Effects" where
  "afterUpdate ok failure c call =
     \<lparr>component = c\<lparr>isSaving := False\<rparr>,
      updateProjectCalls = [call],
      alerts = (if ok then [] else [failure]),
      onUpdateCalled = ok\<rparr>"

definition handleToggleTest ::
    "(Date \<Rightarrow> string) \<Rightarrow> Date \<Rightarrow> bool \<Rightarrow> Card \<Rightarrow> Project \<Rightarrow> nat \<Rightarrow> error + Effects" where
  "handleToggleTest toISOString now ok c project index =
     (if isSaving c then Inr (noEffects c)
      else if \<not> index < length (tests c) then Inl TypeError
      else
        let t = tests c ! index;
            t1 = t\<lparr>Test.done := \<not> Test.done t\<rparr>;
            t2 = (if Test.done t1 then t1\<lparr>Test.date := Some (toISOString now)\<rparr> else t1);
            updatedTests = (tests c)[index := t2]
        in Inr (afterUpdate ok ''Failed to update test'' (c\<lparr>tests := updatedTests\<rparr>)
                  (project_id project, TestsChecklist updatedTests)))"

definition handleToggleStage ::
    "(Date \<Rightarrow> string) \<Rightarrow> Date \<Rightarrow> bool \<Rightarrow> Card \<Rightarrow> Project \<Rightarrow> nat \<Rightarrow> error + Effects" where
  "handleToggleStage toISOString now ok c project index =
     (if isSaving c then Inr (noEffects c)
      else if \<not> index < length (pentestStages c) then Inl TypeError
      else
        let s = pentestStages c ! index;
            s1 = s\<lparr>done := \<not> done s\<rparr>;
            s2 = (if done s1 then s1\<lparr>date := Some (toISOString now)\<rparr>
                  else s1\<lparr>date := None\<rparr>);
            updatedStages = (pentestStages c)[index := s2];
            newProgress = inlineWeightedProgress updatedStages
        in Inr (afterUpdate ok ''Failed to update stage'' (c\<lparr>pentestStages := updatedStages\<rparr>)
                  (project_id project, StagesAndProgress updatedStages newProgress)))"

text \<open>\<^verbatim>\<open>xs.filter((_, i) => i !== index)\<close>.\<close>

definition filterIndexNe :: "nat \<Rightarrow> 'a list \<Rightarrow> 'a list" where
  "filterIndexNe index xs = map snd (filter (\<lambda>(i, _). i \<noteq> index) (enumerate 0 xs))"

definition handleDeleteStage :: "bool \<Rightarrow> Card \<Rightarrow> Project \<Rightarrow> nat \<Rightarrow> error + Effects" where
  "handleDeleteStage ok c project index =
     (if \<not> index < length (pentestStages c) then Inl TypeError
      else if isStatic (pentestStages c ! index) = Some True
      then Inr ((noEffects c)\<lparr>alerts := [''Cannot delete static pentesting stages'']\<rparr>)
      else
        let updatedStages = filterIndexNe index (pentestStages c);
            newProgress = inlineWeightedProgress updatedStages
        in Inr (afterUpdate ok ''Failed to delete stage'' (c\<lparr>pentestStages := updatedStages\<rparr>)
                  (project_id project, StagesAndProgress updatedStages newProgress)))"

definition handleCompleteProject ::
    "(Date \<Rightarrow> string) \<Rightarrow> Date \<Rightarrow> bool \<Rightarrow> Card \<Rightarrow> Project \<Rightarrow> Effects" where
  "handleCompleteProject toISOString now ok c project =
     (if isSaving c then noEffects c
      else
        let completedDate = toISOString now;
            startDate = start_date project;
            businessDays =
              (case startDate of
                 Some sd \<Rightarrow> int (calculateBusinessDays (Some sd) (Some now)) - leaveDays c
               | None \<Rightarrow> 0);
            call = (project_id project,
                    Completion ''past'' completedDate (leaveDays c) (max 0 businessDays))
        in afterUpdate ok ''Failed to complete project''
             (if ok then c\<lparr>isCompleted := True, showCompleteModal := False\<rparr> else c) call)"

section \<open>Properties of the calendar utility\<close>

lemma MS_PER_DAY_pos: "0 < MS_PER_DAY"
  by (simp add: MS_PER_DAY_def)

lemma setHours0_eq: "setHours0 d = dayIndex d * MS_PER_DAY"
  unfolding setHours0_def dayIndex_def
  by (simp add: minus_mod_eq_div_mult)

lemma dayIndex_setHours0: "dayIndex (setHours0 d) = dayIndex d"
  unfolding setHours0_eq by (simp add: dayIndex_def MS_PER_DAY_def)

lemma day_le_iff: "a * MS_PER_DAY \<le> e \<longleftrightarrow> a \<le> e div MS_PER_DAY"
proof
  assume "a * MS_PER_DAY \<le> e"
  then have "(a * MS_PER_DAY) div MS_PER_DAY \<le> e div MS_PER_DAY"
    using MS_PER_DAY_pos by (rule zdiv_mono1)
  then show "a \<le> e div MS_PER_DAY"
    using MS_PER_DAY_pos by simp
next
  assume "a \<le> e div MS_PER_DAY"
  then have "a * MS_PER_DAY \<le> (e div MS_PER_DAY) * MS_PER_DAY"
    using MS_PER_DAY_pos by (simp add: mult_right_mono)
  also have "\<dots> \<le> e"
    using div_mult_mod_eq [of e MS_PER_DAY] pos_mod_sign [OF MS_PER_DAY_pos, of e]
    by linarith
  finally show "a * MS_PER_DAY \<le> e" .
qed

lemma eachDayLoop_upto:
  "eachDayLoop (a * MS_PER_DAY) e = map (\<lambda>n. n * MS_PER_DAY) [a .. e div MS_PER_DAY]"
proof (induction "a * MS_PER_DAY" e arbitrary: a rule: eachDayLoop.induct)
  case (1 endTime)
  show ?case
  proof (cases "a * MS_PER_DAY \<le> endTime")
    case True
    then have le: "a \<le> endTime div MS_PER_DAY" by (simp add: day_le_iff)
    have step: "a * MS_PER_DAY + MS_PER_DAY = (a + 1) * MS_PER_DAY"
      by (simp add: algebra_simps)
    have "eachDayLoop (a * MS_PER_DAY) endTime =
            a * MS_PER_DAY # eachDayLoop ((a + 1) * MS_PER_DAY) endTime"
      using True step by (subst eachDayLoop.simps) simp
    also have "eachDayLoop ((a + 1) * MS_PER_DAY) endTime =
            map (\<lambda>n. n * MS_PER_DAY) [a + 1 .. endTime div MS_PER_DAY]"
      using "1.hyps" [OF True step] .
    finally show ?thesis
      using le by (simp add: upto_rec1 [of a])
  next
    case False
    then have "\<not> a \<le> endTime div MS_PER_DAY" by (simp add: day_le_iff)
    with False show ?thesis
      by (subst eachDayLoop.simps) simp
  qed
qed

lemma length_filter_upto:
  "length (filter P [a .. b]) = card {n. a \<le> n \<and> n \<le> b \<and> P n}"
proof -
  have "distinct (filter P [a .. b])" by simp
  then have "length (filter P [a .. b]) = card (set (filter P [a .. b]))"
    by (simp only: distinct_card)
  also have "set (filter P [a .. b]) = {n. a \<le> n \<and> n \<le> b \<and> P n}"
    by auto
  finally show ?thesis .
qed

lemma weekday_range: "0 \<le> weekdayOfIndex n \<and> weekdayOfIndex n < 7"
  by (simp add: weekdayOfIndex_def)

lemma not_weekend_iff:
  "\<not> isWeekend (n * MS_PER_DAY) \<longleftrightarrow> weekdayOfIndex n \<in> {1, 2, 3, 4, 5}"
proof -
  have "dayIndex (n * MS_PER_DAY) = n" by (simp add: dayIndex_def MS_PER_DAY_def)
  then show ?thesis
    using weekday_range [of n] by (auto simp: isWeekend_def getDay_def)
qed

lemma calculateBusinessDays_upto:
  "calculateBusinessDays (Some s) (Some e) =
     length (filter (\<lambda>n. weekdayOfIndex n \<in> {1, 2, 3, 4, 5}) [dayIndex s .. dayIndex e])"
proof -
  define ds where "ds = dayIndex s"
  define de where "de = dayIndex e"
  have s0: "setHours0 s = ds * MS_PER_DAY" and e0: "setHours0 e = de * MS_PER_DAY"
    by (simp_all add: setHours0_eq ds_def de_def)
  have idem: "setHours0 (ds * MS_PER_DAY) = ds * MS_PER_DAY"
    using MS_PER_DAY_pos by (simp add: setHours0_def)
  have divD: "(de * MS_PER_DAY) div MS_PER_DAY = de"
    using MS_PER_DAY_pos by simp
  have gt: "ds * MS_PER_DAY > de * MS_PER_DAY \<longleftrightarrow> ds > de"
    using MS_PER_DAY_pos by simp
  have days: "eachDayOfInterval (ds * MS_PER_DAY) (de * MS_PER_DAY) =
                map (\<lambda>n. n * MS_PER_DAY) [ds .. de]"
    by (simp only: eachDayOfInterval_def idem eachDayLoop_upto divD)
  have "calculateBusinessDays (Some s) (Some e) =
          (if ds > de then 0
           else length (filter (\<lambda>day. \<not> isWeekend day) (map (\<lambda>n. n * MS_PER_DAY) [ds .. de])))"
    by (simp only: calculateBusinessDays_def s0 e0 days gt Let_def prod.case option.case)
  also have "\<dots> = length (filter (\<lambda>n. weekdayOfIndex n \<in> {1, 2, 3, 4, 5}) [ds .. de])"
    by (simp add: filter_map o_def not_weekend_iff)
  finally show ?thesis
    by (simp only: ds_def de_def)
qed


lemma upto_shift: "[d .. d + int k] = map (\<lambda>i. d + int i) [0 ..< Suc k]"
proof (induction k)
  case 0
  show ?case by simp
next
  case (Suc k)
  have "d + int (Suc k) = (d + int k) + 1" by simp
  then have "[d .. d + int (Suc k)] = [d .. (d + int k) + 1]"
    by (simp only:)
  also have "\<dots> = [d .. d + int k] @ [d + int k + 1]"
    using upto_rec2 [of d "d + int k + 1"] by simp
  finally show ?case
    using Suc.IH by (simp add: add.assoc)
qed

lemma upto_5: "[d .. d + 4] = [d, d + 1, d + 2, d + 3, d + (4::int)]"
  using upto_shift [of d 4] by (simp add: upt_rec)

lemma upto_2: "[d .. d + 1] = [d, d + (1::int)]"
  using upto_shift [of d 1] by (simp add: upt_rec)

lemma monday_week:
  assumes "weekdayOfIndex d = 1"
  shows "weekdayOfIndex (d + 1) = 2" "weekdayOfIndex (d + 2) = 3"
    "weekdayOfIndex (d + 3) = 4" "weekdayOfIndex (d + 4) = 5"
  using assms unfolding weekdayOfIndex_def by presburger+

lemma saturday_sunday:
  assumes "weekdayOfIndex d = 6"
  shows "weekdayOfIndex (d + 1) = 0"
  using assms unfolding weekdayOfIndex_def by presburger

lemma calculateBusinessDays_monday_friday:
  assumes "getDay mon = 1" and "dayIndex fri = dayIndex mon + 4"
  shows "calculateBusinessDays (Some mon) (Some fri) = 5"
proof -
  from assms(1) have "weekdayOfIndex (dayIndex mon) = 1" by (simp add: getDay_def)
  note wk = this monday_week [OF this]
  show ?thesis
    using assms(2) by (simp add: calculateBusinessDays_upto upto_5 wk)
qed

lemma calculateBusinessDays_saturday_sunday:
  assumes "getDay sat = 6" and "dayIndex sun = dayIndex sat + 1"
  shows "calculateBusinessDays (Some sat) (Some sun) = 0"
proof -
  from assms(1) have "weekdayOfIndex (dayIndex sat) = 6" by (simp add: getDay_def)
  note wk = this saturday_sunday [OF this]
  show ?thesis
    using assms(2) by (simp add: calculateBusinessDays_upto upto_2 wk)
qed

text \<open>
  Claim C8. \<^verbatim>\<open>calculateBusinessDays\<close> returns 0 when the start day is after the end day
  (both normalised to midnight), and otherwise the number of calendar days of the closed
  interval from the start day to the end day that are Monday to Friday. A Monday to the
  Friday of the same week gives 5, a Saturday to the following Sunday gives 0.
\<close>

theorem C8_businessDaysBetween:
  "calculateBusinessDays (Some s) (Some e) =
     (if setHours0 s > setHours0 e then 0
      else card {n. dayIndex s \<le> n \<and> n \<le> dayIndex e \<and> weekdayOfIndex n \<in> {1, 2, 3, 4, 5}})
   \<and> (getDay mon = 1 \<and> dayIndex fri = dayIndex mon + 4 \<longrightarrow>
        calculateBusinessDays (Some mon) (Some fri) = 5)
   \<and> (getDay sat = 6 \<and> dayIndex sun = dayIndex sat + 1 \<longrightarrow>
        calculateBusinessDays (Some sat) (Some sun) = 0)"
proof (intro conjI impI)
  show "calculateBusinessDays (Some s) (Some e) =
     (if setHours0 s > setHours0 e then 0
      else card {n. dayIndex s \<le> n \<and> n \<le> dayIndex e \<and> weekdayOfIndex n \<in> {1, 2, 3, 4, 5}})"
  proof (cases "setHours0 s > setHours0 e")
    case True
    then show ?thesis by (simp add: calculateBusinessDays_def)
  next
    case False
    then show ?thesis
      by (simp only: calculateBusinessDays_upto length_filter_upto if_False)
  qed
next
  assume "getDay mon = 1 \<and> dayIndex fri = dayIndex mon + 4"
  then show "calculateBusinessDays (Some mon) (Some fri) = 5"
    by (simp add: calculateBusinessDays_monday_friday)
next
  assume "getDay sat = 6 \<and> dayIndex sun = dayIndex sat + 1"
  then show "calculateBusinessDays (Some sat) (Some sun) = 0"
    by (simp add: calculateBusinessDays_saturday_sunday)
qed

text \<open>
  2024-01-01 09:00 (a Monday) to 2024-01-05 17:00 (the Friday), 2024-01-06 to 2024-01-07
  (Saturday, Sunday), and the reversed pair Friday, Monday.
\<close>

theorem C8_businessDaysBetween_witness:
  "getDay 1704099600000 = 1 \<and> dayIndex 1704474000000 = dayIndex 1704099600000 + 4
   \<and> calculateBusinessDays (Some 1704099600000) (Some 1704474000000) = 5
   \<and> getDay 1704499200000 = 6 \<and> dayIndex 1704585600000 = dayIndex 1704499200000 + 1
   \<and> calculateBusinessDays (Some 1704499200000) (Some 1704585600000) = 0
   \<and> setHours0 1704474000000 > setHours0 1704099600000
   \<and> calculateBusinessDays (Some 1704474000000) (Some 1704099600000) = 0"
proof -
  have mon: "getDay 1704099600000 = 1 \<and> dayIndex 1704474000000 = dayIndex 1704099600000 + 4"
    by (simp add: getDay_def dayIndex_def weekdayOfIndex_def MS_PER_DAY_def)
  have sat: "getDay 1704499200000 = 6 \<and> dayIndex 1704585600000 = dayIndex 1704499200000 + 1"
    by (simp add: getDay_def dayIndex_def weekdayOfIndex_def MS_PER_DAY_def)
  have rev: "setHours0 1704474000000 > setHours0 1704099600000"
    by (simp add: setHours0_def MS_PER_DAY_def)
  show ?thesis
    using mon sat rev
      C8_businessDaysBetween [of 1704474000000 1704099600000 1704099600000 1704474000000
        1704499200000 1704585600000]
    by simp
qed

section \<open>Properties of the progress calculator\<close>

lemma ilog2_bounds:
  "1 \<le> n \<Longrightarrow> 0 \<le> ilog2 n \<and> 2 ^ nat (ilog2 n) \<le> n \<and> n < 2 * 2 ^ nat (ilog2 n)"
proof (induction n rule: ilog2.induct)
  case (1 n)
  show ?case
  proof (cases "n < 2")
    case True
    with "1.prems" have "n = 1" by simp
    then show ?thesis by (subst ilog2.simps, subst ilog2.simps, subst ilog2.simps) simp
  next
    case False
    then have "1 \<le> n div 2" by simp
    from "1.IH" [OF False this]
    have ih: "0 \<le> ilog2 (n div 2)" "2 ^ nat (ilog2 (n div 2)) \<le> n div 2"
      "n div 2 < 2 * 2 ^ nat (ilog2 (n div 2))"
      by simp_all
    have eq: "ilog2 n = 1 + ilog2 (n div 2)"
      using False by (subst ilog2.simps) simp
    have pw: "(2::int) ^ nat (1 + ilog2 (n div 2)) = 2 * 2 ^ nat (ilog2 (n div 2))"
      using ih(1) by (simp add: nat_add_distrib)
    have "2 * (n div 2) \<le> n" and "n < 2 * (n div 2) + 2" by presburger+
    with ih show ?thesis
      unfolding eq pw by linarith
  qed
qed

lemma pow2_powi: "pow2 k = 2 powi k"
  by (simp add: pow2_def power_int_def inverse_eq_divide power_one_over)

lemma roundHalfEven_error: "\<bar>of_int (roundHalfEven y) - y\<bar> \<le> 1 / 2"
proof -
  define f where "f = \<lfloor>y\<rfloor>"
  define d where "d = y - of_int f"
  have d: "0 \<le> d" "d < 1" and y: "y = of_int f + d"
    unfolding d_def f_def by linarith+
  have r: "roundHalfEven y =
      (if d < 1 / 2 then f else if 1 / 2 < d then f + 1 else if even f then f else f + 1)"
    unfolding roundHalfEven_def Let_def d_def f_def by (rule refl)
  consider "d < 1 / 2" | "1 / 2 < d" | "d = 1 / 2" by linarith
  then show ?thesis
  proof cases
    case 1
    then have "roundHalfEven y = f" unfolding r by simp
    with 1 d y show ?thesis by simp
  next
    case 2
    then have "roundHalfEven y = f + 1" unfolding r by simp
    with 2 d y show ?thesis by simp
  next
    case 3
    then have "roundHalfEven y = f \<or> roundHalfEven y = f + 1" unfolding r by simp
    with 3 y show ?thesis by auto
  qed
qed

lemma pow2_pos: "0 < pow2 k"
  by (simp add: pow2_powi)

lemma pow2_add: "pow2 (j + k) = pow2 j * pow2 k"
  by (simp add: pow2_powi power_int_add)

lemma pow2_nat: "pow2 (int k) = 2 ^ k"
  by (simp add: pow2_def)

lemma pow2_diff_nat: "0 \<le> j \<Longrightarrow> 0 \<le> k \<Longrightarrow> pow2 (j - k) = 2 ^ nat j / 2 ^ nat k"
proof -
  assume j: "0 \<le> j" and k: "0 \<le> k"
  have "pow2 (j - k) = pow2 j / pow2 k"
    by (simp add: pow2_powi power_int_diff)
  moreover have "pow2 j = 2 ^ nat j" using j by (simp add: pow2_def)
  moreover have "pow2 k = 2 ^ nat k" using k by (simp add: pow2_def)
  ultimately show ?thesis by simp
qed

text \<open>The exponent that \<open>toDouble\<close> computes brackets its argument.\<close>

lemma exponent_bracket:
  assumes "0 < a" and "quotient_of a = (n, d)"
  defines "e0 \<equiv> ilog2 n - ilog2 d"
  defines "e \<equiv> (if pow2 e0 \<le> a then e0 else e0 - 1)"
  shows "pow2 e \<le> a \<and> a < pow2 (e + 1)"
proof -
  have d: "0 < d" using assms(2) by (rule quotient_of_denom_pos)
  have a: "a = of_int n / of_int d" using assms(2) by (rule quotient_of_div)
  with assms(1) d have n: "0 < n" by (simp add: zero_less_divide_iff)
  from ilog2_bounds [of n] n
  have ln: "0 \<le> ilog2 n" "2 ^ nat (ilog2 n) \<le> n" "n < 2 * 2 ^ nat (ilog2 n)" by simp_all
  from ilog2_bounds [of d] d
  have ld: "0 \<le> ilog2 d" "2 ^ nat (ilog2 d) \<le> d" "d < 2 * 2 ^ nat (ilog2 d)" by simp_all
  define N :: rat where "N = 2 ^ nat (ilog2 n)"
  define D :: rat where "D = 2 ^ nat (ilog2 d)"
  have N: "0 < N" "N \<le> of_int n" "of_int n < 2 * N"
  proof -
    show "0 < N" by (simp add: N_def)
    have "of_int (2 ^ nat (ilog2 n)) \<le> (of_int n :: rat)"
      using ln(2) by (simp only: of_int_le_iff)
    then show "N \<le> of_int n" by (simp add: N_def)
    have "(of_int n :: rat) < of_int (2 * 2 ^ nat (ilog2 n))"
      using ln(3) by (simp only: of_int_less_iff)
    then show "of_int n < 2 * N" by (simp add: N_def)
  qed
  have D: "0 < D" "D \<le> of_int d" "of_int d < 2 * D"
  proof -
    show "0 < D" by (simp add: D_def)
    have "of_int (2 ^ nat (ilog2 d)) \<le> (of_int d :: rat)"
      using ld(2) by (simp only: of_int_le_iff)
    then show "D \<le> of_int d" by (simp add: D_def)
    have "(of_int d :: rat) < of_int (2 * 2 ^ nat (ilog2 d))"
      using ld(3) by (simp only: of_int_less_iff)
    then show "of_int d < 2 * D" by (simp add: D_def)
  qed
  have p0: "pow2 e0 = N / D"
    unfolding e0_def N_def D_def using ln(1) ld(1) by (rule pow2_diff_nat)
  have dpos: "(0::rat) < of_int d" using d by simp
  have upper: "a < 2 * pow2 e0"
  proof -
    have "a * D \<le> a * of_int d" using D(2) assms(1) by (simp add: mult_left_mono)
    also have "a * of_int d = of_int n" using dpos by (simp add: a)
    also have "of_int n < 2 * N" by (rule N(3))
    finally have "a < 2 * N / D" using D(1) by (simp add: pos_less_divide_eq)
    then show ?thesis by (simp add: p0)
  qed
  have lower: "pow2 e0 < 2 * a"
  proof -
    have "N \<le> of_int n" by (rule N(2))
    also have "of_int n = a * of_int d" using dpos by (simp add: a)
    also have "a * of_int d < a * (2 * D)" using D(3) assms(1) by (simp add: mult_strict_left_mono)
    finally have "N / D < 2 * a" using D(1) by (simp add: pos_divide_less_eq algebra_simps)
    then show ?thesis by (simp add: p0)
  qed
  have s1: "pow2 (e0 + 1) = 2 * pow2 e0"
    using pow2_add [of e0 1] by (simp add: pow2_def)
  have s2: "pow2 e0 = 2 * pow2 (e0 - 1)"
    using pow2_add [of "e0 - 1" 1] by (simp add: pow2_def)
  show ?thesis
  proof (cases "pow2 e0 \<le> a")
    case True
    then show ?thesis unfolding e_def using upper by (simp add: s1)
  next
    case False
    then show ?thesis unfolding e_def using lower s2 by simp
  qed
qed


text \<open>
  Rounding to a double changes a positive number by at most half a unit in the last
  place, so by at most the fraction \<open>1 / 2 ^ 53\<close> of the number.
\<close>

lemma toDouble_error:
  assumes "0 < x"
  shows "\<bar>toDouble x - x\<bar> \<le> x / 2 ^ 53"
proof -
  obtain n d where q: "quotient_of x = (n, d)" by (cases "quotient_of x")
  define e0 where "e0 = ilog2 n - ilog2 d"
  define e where "e = (if pow2 e0 \<le> x then e0 else e0 - 1)"
  define ulp where "ulp = pow2 (e - 52)"
  define m where "m = roundHalfEven (x / ulp)"
  have bracket: "pow2 e \<le> x"
    using exponent_bracket [OF assms q] unfolding e_def e0_def by simp
  have ulp_pos: "0 < ulp" unfolding ulp_def by (rule pow2_pos)
  have ulp: "ulp = pow2 e / 2 ^ 52"
    using pow2_add [of e "- 52"] by (simp add: ulp_def pow2_def)
  have td: "toDouble x = of_int m * ulp"
    using assms
    by (simp add: toDouble_def Let_def q m_def ulp_def e_def e0_def)
  have "\<bar>of_int m * ulp - x\<bar> = \<bar>of_int m - x / ulp\<bar> * ulp"
  proof -
    have "of_int m * ulp - x = (of_int m - x / ulp) * ulp"
      using ulp_pos by (simp add: field_simps)
    then show ?thesis
      using ulp_pos by (simp add: abs_mult)
  qed
  also have "\<dots> \<le> 1 / 2 * ulp"
    using roundHalfEven_error [of "x / ulp"] ulp_pos
    unfolding m_def by (intro mult_right_mono) simp_all
  also have "\<dots> = pow2 e / 2 ^ 53"
    by (simp add: ulp)
  also have "\<dots> \<le> x / 2 ^ 53"
    using bracket by (simp add: divide_right_mono)
  finally show ?thesis by (simp only: td)
qed

lemma toDouble_zero: "toDouble 0 = 0"
  by (simp add: toDouble_def)

lemma toDouble_bounds:
  assumes "0 \<le> x"
  shows "\<bar>toDouble x - x\<bar> \<le> x / 2 ^ 53" and "0 \<le> toDouble x" and "toDouble x \<le> 2 * x"
proof -
  show e: "\<bar>toDouble x - x\<bar> \<le> x / 2 ^ 53"
  proof (cases "x = 0")
    case True
    then show ?thesis by (simp add: toDouble_zero)
  next
    case False
    with assms have "0 < x" by simp
    then show ?thesis by (rule toDouble_error)
  qed
  have "x / 2 ^ 53 \<le> x" using assms by (simp add: field_simps)
  with e show "0 \<le> toDouble x" and "toDouble x \<le> 2 * x" by linarith+
qed

lemma groupPct_error:
  assumes "c \<le> t" and "0 < t" and "0 \<le> w"
  shows "\<bar>groupPct c t w - of_nat c / of_nat t * w\<bar> \<le> 3 * w / 2 ^ 53"
    and "0 \<le> groupPct c t w" and "groupPct c t w \<le> 2 * w"
proof -
  define U :: rat where "U = 1 / 2 ^ 53"
  define q0 :: rat where "q0 = of_nat c / of_nat t"
  define q where "q = toDouble q0"
  define g where "g = toDouble (q * w)"
  have U: "0 < U" "U \<le> 1" by (simp_all add: U_def)
  have q0: "0 \<le> q0" "q0 \<le> 1"
    using assms(1,2) by (simp_all add: q0_def)
  have g: "groupPct c t w = g"
    using assms(2) by (simp add: groupPct_def js_mul_def js_div_def g_def q_def q0_def)
  from toDouble_bounds [OF q0(1)]
  have q: "\<bar>q - q0\<bar> \<le> q0 * U" "0 \<le> q"
    by (simp_all add: q_def U_def)
  have "q0 * U \<le> 1 * U" using q0(2) U(1) by (intro mult_right_mono) simp_all
  with q(1) have qa: "\<bar>q - q0\<bar> \<le> U" by simp
  with q0(2) have qb: "q \<le> 1 + U" by linarith
  have qw: "0 \<le> q * w" using q(2) assms(3) by simp
  from toDouble_bounds [OF qw]
  have ge: "\<bar>g - q * w\<bar> \<le> q * w * U" "0 \<le> g"
    by (simp_all add: g_def U_def)
  define W where "W = w * U"
  have W: "0 \<le> W" using assms(3) U(1) by (simp add: W_def)
  have UW: "U * W \<le> W" using mult_right_mono [OF U(2) W] by simp
  have "q * w * U = q * W" by (simp add: W_def)
  also have "\<dots> \<le> (1 + U) * W" using qb W by (rule mult_right_mono)
  also have "\<dots> = W + U * W" by (simp add: algebra_simps)
  finally have e1: "\<bar>g - q * w\<bar> \<le> 2 * W" using ge(1) UW by linarith
  have "\<bar>q * w - q0 * w\<bar> = \<bar>q - q0\<bar> * w"
    using assms(3) by (simp add: left_diff_distrib [symmetric] abs_mult)
  also have "\<dots> \<le> U * w" using qa assms(3) by (rule mult_right_mono)
  finally have e2: "\<bar>q * w - q0 * w\<bar> \<le> W" by (simp add: W_def mult.commute)
  from e1 e2 have e: "\<bar>g - q0 * w\<bar> \<le> 3 * W" by linarith
  then show "\<bar>groupPct c t w - of_nat c / of_nat t * w\<bar> \<le> 3 * w / 2 ^ 53"
    by (simp add: g q0_def W_def U_def)
  show "0 \<le> groupPct c t w" using ge(2) by (simp add: g)
  have "q0 * w \<le> 1 * w" using q0(2) assms(3) by (rule mult_right_mono)
  moreover have "3 * W \<le> w"
    using assms(3) by (simp add: W_def U_def)
  ultimately show "groupPct c t w \<le> 2 * w" using e by (simp add: g)
qed

lemma weighted_sum_error:
  assumes "\<bar>A - a\<bar> \<le> 30 / 2 ^ 53" "0 \<le> A" "A \<le> 20"
    and "\<bar>B - b\<bar> \<le> 240 / 2 ^ 53" "0 \<le> B" "B \<le> 160"
    and "\<bar>C - c\<bar> \<le> 30 / 2 ^ 53" "0 \<le> C" "C \<le> 20"
  shows "\<bar>js_add (js_add A B) C - (a + b + c)\<bar> \<le> 1000 / 2 ^ 53"
proof -
  define U :: rat where "U = 1 / 2 ^ 53"
  define s1 where "s1 = toDouble (A + B)"
  define s where "s = toDouble (s1 + C)"
  have ea: "\<bar>A - a\<bar> \<le> 30 * U" and eb: "\<bar>B - b\<bar> \<le> 240 * U"
    and ec: "\<bar>C - c\<bar> \<le> 30 * U"
    using assms(1,4,7) by (simp_all add: U_def)
  have ab: "0 \<le> A + B" "A + B \<le> 180" using assms(2,3,5,6) by simp_all
  from toDouble_bounds [OF ab(1)]
  have s1: "\<bar>s1 - (A + B)\<bar> \<le> (A + B) * U" "0 \<le> s1" "s1 \<le> 2 * (A + B)"
    by (simp_all add: s1_def U_def)
  have "(A + B) * U \<le> 180 * U"
    using ab(2) by (intro mult_right_mono) (simp_all add: U_def)
  with s1(1) have e1: "\<bar>s1 - (A + B)\<bar> \<le> 180 * U" by simp
  have sc: "0 \<le> s1 + C" "s1 + C \<le> 380" using s1(2,3) ab(2) assms(8,9) by simp_all
  from toDouble_bounds(1) [OF sc(1)]
  have "\<bar>s - (s1 + C)\<bar> \<le> (s1 + C) * U"
    by (simp add: s_def U_def)
  moreover have "(s1 + C) * U \<le> 380 * U"
    using sc(2) by (intro mult_right_mono) (simp_all add: U_def)
  ultimately have e2: "\<bar>s - (s1 + C)\<bar> \<le> 380 * U" by simp
  have "0 < U" by (simp add: U_def)
  with ea eb ec e1 e2 have "\<bar>s - (a + b + c)\<bar> \<le> 1000 * U" by linarith
  moreover have "js_add (js_add A B) C = s"
    by (simp add: js_add_def s_def s1_def)
  ultimately show ?thesis by (simp add: U_def)
qed

lemma Math_round_stable:
  assumes "\<bar>s - x\<bar> < 1 / 14" and "\<bar>x - of_int (Math_round x)\<bar> \<le> 3 / 7"
  shows "Math_round s = Math_round x"
proof -
  define r where "r = Math_round x"
  from assms(2) have "of_int r - 3 / 7 \<le> x" "x \<le> of_int r + 3 / 7"
    unfolding r_def by linarith+
  with assms(1) have "of_int r \<le> s + 1 / 2" "s + 1 / 2 < of_int r + 1"
    by linarith+
  then have "\<lfloor>s + 1 / 2\<rfloor> = r" by (rule floor_unique)
  then show ?thesis by (simp add: Math_round_def r_def)
qed

lemma length_filter_names:
  assumes "distinct (map stage stages)" and "distinct names"
    and "set names \<subseteq> set (map stage stages)"
  shows "length (filter (\<lambda>s. stage s \<in> set names) stages) = length names"
proof -
  have "length (filter (\<lambda>s. stage s \<in> set names) stages) =
          length (filter (\<lambda>n. n \<in> set names) (map stage stages))"
    by (simp add: filter_map o_def)
  also have "\<dots> = card (set (filter (\<lambda>n. n \<in> set names) (map stage stages)))"
  proof -
    have "distinct (filter (\<lambda>n. n \<in> set names) (map stage stages))"
      using assms(1) by (rule distinct_filter)
    then show ?thesis by (rule distinct_card [symmetric])
  qed
  also have "set (filter (\<lambda>n. n \<in> set names) (map stage stages)) = set names"
    using assms(3) by auto
  also have "card (set names) = length names"
    using assms(2) by (rule distinct_card)
  finally show ?thesis .
qed

lemma group_lists_distinct:
  "distinct PREPARATION_STAGES" "distinct MAIN_TESTING_STAGES" "distinct FINAL_STAGES"
  by (simp_all add: PREPARATION_STAGES_def MAIN_TESTING_STAGES_def FINAL_STAGES_def)

lemma group_lists_length:
  "length PREPARATION_STAGES = 2" "length MAIN_TESTING_STAGES = 7" "length FINAL_STAGES = 5"
  by (simp_all add: PREPARATION_STAGES_def MAIN_TESTING_STAGES_def FINAL_STAGES_def)

lemma groupTotal_covered:
  assumes "distinct (map stage stages)"
    and "set PREPARATION_STAGES \<union> set MAIN_TESTING_STAGES \<union> set FINAL_STAGES
           \<subseteq> set (map stage stages)"
  shows "groupTotal PREPARATION_STAGES stages = 2"
    and "groupTotal MAIN_TESTING_STAGES stages = 7"
    and "groupTotal FINAL_STAGES stages = 5"
  using assms length_filter_names [of stages] group_lists_distinct group_lists_length
  unfolding groupTotal_def by auto

lemma Math_round_examples:
  "Math_round (2 / 2 * 10 + 7 / 7 * 80 + 5 / 5 * 10) = 100"
  "Math_round (1 / 2 * 10 + 0 / 7 * 80 + 0 / 5 * 10) = 5"
  "Math_round (0 / 2 * 10 + 3 / 7 * 80 + 0 / 5 * 10) = 34"
  by code_simp+

text \<open>
  For the group totals 2, 7 and 5 the exact weighted sum is at least 1/14 away from the
  nearest rounding boundary of \<^verbatim>\<open>Math.round\<close>, and the double-precision evaluation is
  within \<open>1000 / 2 ^ 53\<close> of it, so both round to the same integer.
\<close>

lemma weighted_sum_margin:
  assumes "p \<le> 2" and "m \<le> 7" and "f \<le> 5"
  defines "x \<equiv> (of_nat p / 2 * 10 + of_nat m / 7 * 80 + of_nat f / 5 * 10 :: rat)"
  shows "\<bar>x - of_int (Math_round x)\<bar> \<le> 3 / 7"
proof -
  define k :: int where "k = 5 * int p + 11 * int m + 2 * int f"
  have x: "x = of_int k + 3 * of_nat m / 7"
    by (simp add: x_def k_def field_simps)
  have round: "Math_round x = k + \<lfloor>(3 * of_nat m / 7 + 1 / 2 :: rat)\<rfloor>"
    unfolding Math_round_def x by (simp add: add.assoc)
  from \<open>m \<le> 7\<close> consider "m = 0" | "m = 1" | "m = 2" | "m = 3" | "m = 4" | "m = 5"
    | "m = 6" | "m = 7" by linarith
  then have "\<bar>(3 * of_nat m / 7 :: rat) - of_int \<lfloor>(3 * of_nat m / 7 + 1 / 2 :: rat)\<rfloor>\<bar> \<le> 3 / 7"
  proof cases
    case 1 show ?thesis unfolding 1 by code_simp
  next
    case 2 show ?thesis unfolding 2 by code_simp
  next
    case 3 show ?thesis unfolding 3 by code_simp
  next
    case 4 show ?thesis unfolding 4 by code_simp
  next
    case 5 show ?thesis unfolding 5 by code_simp
  next
    case 6 show ?thesis unfolding 6 by code_simp
  next
    case 7 show ?thesis unfolding 7 by code_simp
  next
    case 8 show ?thesis unfolding 8 by code_simp
  qed
  moreover have "x - of_int (Math_round x) =
      3 * of_nat m / 7 - of_int \<lfloor>(3 * of_nat m / 7 + 1 / 2 :: rat)\<rfloor>"
    by (subst round, subst x) simp
  ultimately show ?thesis by (simp only:)
qed

lemma groupCompleted_le: "groupCompleted names stages \<le> groupTotal names stages"
proof -
  have "filter (\<lambda>s. stage s \<in> set names \<and> done s) stages =
          filter done (filter (\<lambda>s. stage s \<in> set names) stages)"
    by (simp add: conj_commute)
  then show ?thesis
    unfolding groupCompleted_def groupTotal_def by (simp only: length_filter_le)
qed

lemma weighted_doubles_exact:
  assumes "p \<le> 2" and "m \<le> 7" and "f \<le> 5"
  shows "Math_round (js_add (js_add (groupPct p 2 10) (groupPct m 7 80)) (groupPct f 5 10)) =
         Math_round (of_nat p / 2 * 10 + of_nat m / 7 * 80 + of_nat f / 5 * 10)"
proof (rule Math_round_stable)
  have "\<bar>js_add (js_add (groupPct p 2 10) (groupPct m 7 80)) (groupPct f 5 10)
          - (of_nat p / of_nat 2 * 10 + of_nat m / of_nat 7 * 80 + of_nat f / of_nat 5 * 10)\<bar>
        \<le> 1000 / 2 ^ 53"
    using groupPct_error [of p 2 10] groupPct_error [of m 7 80] groupPct_error [of f 5 10]
      assms
    by (intro weighted_sum_error) simp_all
  then show "\<bar>js_add (js_add (groupPct p 2 10) (groupPct m 7 80)) (groupPct f 5 10)
          - (of_nat p / 2 * 10 + of_nat m / 7 * 80 + of_nat f / 5 * 10)\<bar> < 1 / 14"
    by simp
  show "\<bar>(of_nat p / 2 * 10 + of_nat m / 7 * 80 + of_nat f / 5 * 10 :: rat)
          - of_int (Math_round (of_nat p / 2 * 10 + of_nat m / 7 * 80 + of_nat f / 5 * 10))\<bar>
        \<le> 3 / 7"
    using assms by (rule weighted_sum_margin)
qed

text \<open>
  Claim C2. For every stage list with unique names in which all 2 Preparation, 7 Main
  Testing and 5 Final template stages are present, with completion counts \<open>p\<close>,
  \<open>m\<close>, \<open>f\<close> in the three groups, the weighted progress is
  \<open>round (p / 2 * 10 + m / 7 * 80 + f / 5 * 10)\<close>; the counts (2, 7, 5) give 100,
  (1, 0, 0) give 5 and (0, 3, 0) give 34.
\<close>

theorem C2_weighted_progress:
  assumes "distinct (map stage stages)"
    and "set PREPARATION_STAGES \<union> set MAIN_TESTING_STAGES \<union> set FINAL_STAGES
           \<subseteq> set (map stage stages)"
    and "p = groupCompleted PREPARATION_STAGES stages"
    and "m = groupCompleted MAIN_TESTING_STAGES stages"
    and "f = groupCompleted FINAL_STAGES stages"
  shows "calculateWeightedProgress stages =
           Math_round (of_nat p / 2 * 10 + of_nat m / 7 * 80 + of_nat f / 5 * 10)
         \<and> (p = 2 \<and> m = 7 \<and> f = 5 \<longrightarrow> calculateWeightedProgress stages = 100)
         \<and> (p = 1 \<and> m = 0 \<and> f = 0 \<longrightarrow> calculateWeightedProgress stages = 5)
         \<and> (p = 0 \<and> m = 3 \<and> f = 0 \<longrightarrow> calculateWeightedProgress stages = 34)"
proof -
  note totals = groupTotal_covered [OF assms(1,2)]
  have "p \<le> 2" "m \<le> 7" "f \<le> 5"
    using groupCompleted_le [of PREPARATION_STAGES stages]
      groupCompleted_le [of MAIN_TESTING_STAGES stages]
      groupCompleted_le [of FINAL_STAGES stages] assms(3-5) totals
    by simp_all
  then have "Math_round (js_add (js_add (groupPct p 2 10) (groupPct m 7 80)) (groupPct f 5 10)) =
         Math_round (of_nat p / 2 * 10 + of_nat m / 7 * 80 + of_nat f / 5 * 10)"
    by (rule weighted_doubles_exact)
  then have eq: "calculateWeightedProgress stages =
           Math_round (of_nat p / 2 * 10 + of_nat m / 7 * 80 + of_nat f / 5 * 10)"
    using assms(3-5) totals
    by (simp add: calculateWeightedProgress_def Let_def)
  show ?thesis
    using Math_round_examples by (auto simp: eq)
qed

text \<open>
  The full template with every stage done, with only Kickoff done, and with three of the
  Main Testing stages done.
\<close>

theorem C2_weighted_progress_witness:
  "calculateWeightedProgress
     (map (\<lambda>n. \<lparr>stage = n, done = True, date = None, isStatic = Some True\<rparr>)
        STATIC_PENTEST_STAGES) = 100
   \<and> calculateWeightedProgress
     (map (\<lambda>n. \<lparr>stage = n, done = (n = ''Kickoff''), date = None, isStatic = Some True\<rparr>)
        STATIC_PENTEST_STAGES) = 5
   \<and> calculateWeightedProgress
     (map (\<lambda>n. \<lparr>stage = n,
                done = (n \<in> set [''Enumeration'', ''Manual Testing'', ''Exploitation'']),
                date = None, isStatic = Some True\<rparr>)
        STATIC_PENTEST_STAGES) = 34"
  (is "calculateWeightedProgress ?A = 100 \<and> calculateWeightedProgress ?B = 5
       \<and> calculateWeightedProgress ?C = 34")
proof -
  have dA: "distinct (map stage ?A)" and dB: "distinct (map stage ?B)"
    and dC: "distinct (map stage ?C)"
    by (simp_all add: STATIC_PENTEST_STAGES_def)
  have cA: "set PREPARATION_STAGES \<union> set MAIN_TESTING_STAGES \<union> set FINAL_STAGES
              \<subseteq> set (map stage ?A)"
    and cB: "set PREPARATION_STAGES \<union> set MAIN_TESTING_STAGES \<union> set FINAL_STAGES
              \<subseteq> set (map stage ?B)"
    and cC: "set PREPARATION_STAGES \<union> set MAIN_TESTING_STAGES \<union> set FINAL_STAGES
              \<subseteq> set (map stage ?C)"
    by (simp_all add: STATIC_PENTEST_STAGES_def PREPARATION_STAGES_def
        MAIN_TESTING_STAGES_def FINAL_STAGES_def)
  have nA: "groupCompleted PREPARATION_STAGES ?A = 2 \<and>
            groupCompleted MAIN_TESTING_STAGES ?A = 7 \<and> groupCompleted FINAL_STAGES ?A = 5"
    by (simp add: groupCompleted_def STATIC_PENTEST_STAGES_def PREPARATION_STAGES_def
        MAIN_TESTING_STAGES_def FINAL_STAGES_def)
  have nB: "groupCompleted PREPARATION_STAGES ?B = 1 \<and>
            groupCompleted MAIN_TESTING_STAGES ?B = 0 \<and> groupCompleted FINAL_STAGES ?B = 0"
    by (simp add: groupCompleted_def STATIC_PENTEST_STAGES_def PREPARATION_STAGES_def
        MAIN_TESTING_STAGES_def FINAL_STAGES_def)
  have nC: "groupCompleted PREPARATION_STAGES ?C = 0 \<and>
            groupCompleted MAIN_TESTING_STAGES ?C = 3 \<and> groupCompleted FINAL_STAGES ?C = 0"
    by (simp add: groupCompleted_def STATIC_PENTEST_STAGES_def PREPARATION_STAGES_def
        MAIN_TESTING_STAGES_def FINAL_STAGES_def)
  show ?thesis
    using C2_weighted_progress [OF dA cA refl refl refl]
      C2_weighted_progress [OF dB cB refl refl refl]
      C2_weighted_progress [OF dC cC refl refl refl] nA nB nC
    by simp
qed

lemma inlineWeightedProgress_eq:
  "inlineWeightedProgress stages = calculateWeightedProgress stages"
  by (simp add: inlineWeightedProgress_def calculateWeightedProgress_def groupCompleted_def
      groupTotal_def groupPct_def PREPARATION_STAGES_def MAIN_TESTING_STAGES_def
      FINAL_STAGES_def Let_def)

text \<open>
  The plain percentage of the reconciliation effect has no such margin: 23 done stages of
  40 give the double 57.49999999999999, which rounds to 57, where the exact value 57.5
  would round to 58.
\<close>

lemma effectProgress_rounding:
  "Math_round (js_mul (js_div 23 40) 100) = 57 \<and> Math_round (23 / 40 * 100) = 58"
  by code_simp

section \<open>Properties of the stage reconciler\<close>

lemma staticStagesPresent_eq:
  "staticStagesPresent stages =
     map (\<lambda>s. s\<lparr>isStatic := Some True\<rparr>)
       (filter (\<lambda>s. stage s \<in> set STATIC_PENTEST_STAGES) stages)"
  by (induction stages) (simp_all add: staticStagesPresent_def existingStagesOf_def)

lemma customStages_eq:
  "customStages stages =
     map (\<lambda>s. s\<lparr>isStatic := Some False\<rparr>)
       (filter (\<lambda>s. stage s \<notin> set STATIC_PENTEST_STAGES) stages)"
  by (induction stages) (simp_all add: customStages_def existingStagesOf_def)

lemma stage_staticStagesPresent:
  "map stage (staticStagesPresent stages) = staticStagesInProject stages"
  by (simp add: staticStagesPresent_eq staticStagesInProject_def o_def)

lemma map_filter_find_subset:
  "set (List.map_filter (\<lambda>n. find (\<lambda>s. stage s = n) xs) ns) \<subseteq> set xs"
proof (induction ns)
  case Nil
  show ?case by (simp add: map_filter_simps)
next
  case (Cons n ns)
  then show ?case
    by (auto simp: map_filter_simps find_Some_iff split: option.splits)
qed

lemma map_filter_find_names:
  "map stage (List.map_filter (\<lambda>n. find (\<lambda>s. stage s = n) xs) ns) =
     filter (\<lambda>n. n \<in> stage ` set xs) ns"
proof (induction ns)
  case Nil
  show ?case by (simp add: map_filter_simps)
next
  case (Cons n ns)
  show ?case
  proof (cases "find (\<lambda>s. stage s = n) xs")
    case None
    then have "n \<notin> stage ` set xs" by (auto simp: find_None_iff)
    with None Cons show ?thesis by (simp add: map_filter_simps)
  next
    case (Some y)
    then have "stage y = n" and "y \<in> set xs"
      by (auto simp: find_Some_iff)
    then have "n \<in> stage ` set xs" by auto
    with Some Cons \<open>stage y = n\<close> show ?thesis by (simp add: map_filter_simps)
  qed
qed

lemma staticStagesInOrder_eq:
  "staticStagesInOrder stages =
     filter (\<lambda>n. n \<in> stage ` set stages) STATIC_PENTEST_STAGES"
proof -
  have "staticStagesInOrder stages =
          filter (\<lambda>n. n \<in> stage ` set (staticStagesPresent stages)) STATIC_PENTEST_STAGES"
    by (simp add: staticStagesInOrder_def reorderedStaticStages_def map_filter_find_names)
  also have "\<dots> = filter (\<lambda>n. n \<in> stage ` set stages) STATIC_PENTEST_STAGES"
    by (rule filter_cong) (auto simp: staticStagesPresent_eq image_iff)
  finally show ?thesis .
qed

lemma names_updatedStagesOf:
  "stage ` set (updatedStagesOf stages) \<subseteq> stage ` set stages"
proof -
  have "stage ` set (reorderedStaticStages stages) \<subseteq> stage ` set stages"
    using map_filter_find_subset [of "staticStagesPresent stages" STATIC_PENTEST_STAGES]
    by (auto simp: reorderedStaticStages_def staticStagesPresent_eq)
  moreover have "stage ` set (customStages stages) \<subseteq> stage ` set stages"
    by (auto simp: customStages_eq)
  ultimately show ?thesis by (auto simp: updatedStagesOf_def)
qed


lemma STATIC_PENTEST_STAGES_distinct: "distinct STATIC_PENTEST_STAGES"
  by (simp add: STATIC_PENTEST_STAGES_def)

lemma set_staticStagesInProject:
  "set (staticStagesInProject stages) = set STATIC_PENTEST_STAGES \<inter> stage ` set stages"
  by (auto simp: staticStagesInProject_def)

lemma set_staticStagesInOrder:
  "set (staticStagesInOrder stages) = set STATIC_PENTEST_STAGES \<inter> stage ` set stages"
  by (auto simp: staticStagesInOrder_eq)

lemma staticStagesInOrder_alt:
  "staticStagesInOrder stages =
     filter (\<lambda>n. n \<in> set (staticStagesInProject stages)) STATIC_PENTEST_STAGES"
  unfolding staticStagesInOrder_eq
  by (rule filter_cong) (auto simp: set_staticStagesInProject)

lemma static_lengths_equal:
  assumes "distinct (staticStagesInProject stages)"
  shows "length (staticStagesInProject stages) = length (staticStagesInOrder stages)"
proof -
  have "distinct (staticStagesInOrder stages)"
    unfolding staticStagesInOrder_eq
    using STATIC_PENTEST_STAGES_distinct by (rule distinct_filter)
  then have "length (staticStagesInOrder stages) = card (set (staticStagesInOrder stages))"
    by (rule distinct_card [symmetric])
  moreover have "length (staticStagesInProject stages) = card (set (staticStagesInProject stages))"
    using assms by (rule distinct_card [symmetric])
  ultimately show ?thesis
    by (simp only: set_staticStagesInProject set_staticStagesInOrder)
qed

lemma orderChanged_iff:
  assumes "length (staticStagesInProject stages) = length (staticStagesInOrder stages)"
  shows "orderChanged stages \<longleftrightarrow> staticStagesInProject stages \<noteq> staticStagesInOrder stages"
proof -
  let ?a = "staticStagesInProject stages" and ?b = "staticStagesInOrder stages"
  have "orderChanged stages \<longleftrightarrow> (\<exists>idx < length ?a. ?a ! idx \<noteq> ?b ! idx)"
    unfolding orderChanged_def Let_def using assms
    by (simp add: list_ex_iff Bex_def) 
  also have "\<dots> \<longleftrightarrow> ?a \<noteq> ?b"
    using assms by (subst list_eq_iff_nth_eq) simp
  finally show ?thesis .
qed

lemma set_map_filter: "set (List.map_filter f ns) = {y. \<exists>n \<in> set ns. f n = Some y}"
proof (induction ns)
  case Nil
  show ?case by (simp add: map_filter_simps)
next
  case (Cons n ns)
  then show ?case
    by (cases "f n") (auto simp: map_filter_simps)
qed

lemma set_reorderedStaticStages:
  assumes "distinct (staticStagesInProject stages)"
  shows "set (reorderedStaticStages stages) = set (staticStagesPresent stages)"
proof
  show "set (reorderedStaticStages stages) \<subseteq> set (staticStagesPresent stages)"
    unfolding reorderedStaticStages_def by (rule map_filter_find_subset)
next
  have inj: "inj_on stage (set (staticStagesPresent stages))"
    using assms by (simp add: stage_staticStagesPresent [symmetric] distinct_map)
  show "set (staticStagesPresent stages) \<subseteq> set (reorderedStaticStages stages)"
  proof
    fix s assume s: "s \<in> set (staticStagesPresent stages)"
    then have static: "stage s \<in> set STATIC_PENTEST_STAGES"
      by (auto simp: staticStagesPresent_eq)
    from s obtain y where y: "find (\<lambda>x. stage x = stage s) (staticStagesPresent stages) = Some y"
      by (cases "find (\<lambda>x. stage x = stage s) (staticStagesPresent stages)")
        (auto simp: find_None_iff)
    then have "stage y = stage s" and "y \<in> set (staticStagesPresent stages)"
      by (auto simp: find_Some_iff)
    with inj s have "y = s" by (auto dest: inj_onD)
    with y static show "s \<in> set (reorderedStaticStages stages)"
      unfolding reorderedStaticStages_def set_map_filter by auto
  qed
qed

lemma ref_after_reconcileEffect:
  "lastProcessedStagesRef (component (reconcileEffect c project)) =
     Some (currentStagesKey (pentest_stages project))"
  by (simp add: reconcileEffect_def Let_def noEffects_def split: option.splits)

lemma reconcileEffect_processed:
  assumes "pentest_stages project = Some stages"
    and "lastProcessedStagesRef c \<noteq> Some (currentStagesKey (Some stages))"
  shows "pentestStages (component (reconcileEffect c project)) = updatedStagesOf stages"
    and "updateProjectCalls (reconcileEffect c project) =
          (if orderChanged stages \<and> length stages > 0 \<and>
              length (staticStagesInProject stages) = length (staticStagesInOrder stages)
           then [(project_id project,
                  StagesAndProgress (updatedStagesOf stages)
                    (effectProgress (updatedStagesOf stages)))]
           else [])"
  using assms by (simp_all add: reconcileEffect_def Let_def noEffects_def)

lemma reconcileEffect_skipped:
  assumes "lastProcessedStagesRef c = Some (currentStagesKey (pentest_stages project))"
  shows "reconcileEffect c project = noEffects c"
  using assms by (simp add: reconcileEffect_def)


lemma names_reorderedStaticStages:
  "stage ` set (reorderedStaticStages stages) = set STATIC_PENTEST_STAGES \<inter> stage ` set stages"
  using set_staticStagesInOrder [of stages] by (simp add: staticStagesInOrder_def)

lemma names_customStages:
  "stage ` set (customStages stages) = stage ` set stages - set STATIC_PENTEST_STAGES"
  by (auto simp: customStages_eq image_iff)

lemma names_updatedStagesOf_eq:
  "stage ` set (updatedStagesOf stages) = stage ` set stages"
  by (auto simp: updatedStagesOf_def image_Un names_reorderedStaticStages names_customStages)

lemma staticStagesInProject_updatedStagesOf:
  "staticStagesInProject (updatedStagesOf stages) = staticStagesInOrder stages"
proof -
  have a: "filter (\<lambda>s. stage s \<in> set STATIC_PENTEST_STAGES) (reorderedStaticStages stages) =
             reorderedStaticStages stages"
    using names_reorderedStaticStages [of stages] by (auto simp: filter_id_conv)
  have b: "filter (\<lambda>s. stage s \<in> set STATIC_PENTEST_STAGES) (customStages stages) = []"
    using names_customStages [of stages] by (auto simp: filter_empty_conv)
  show ?thesis
    by (simp add: staticStagesInProject_def updatedStagesOf_def a b staticStagesInOrder_def)
qed

lemma staticStagesInOrder_updatedStagesOf:
  "staticStagesInOrder (updatedStagesOf stages) = staticStagesInOrder stages"
  by (simp add: staticStagesInOrder_eq names_updatedStagesOf_eq)

lemma orderChanged_updatedStagesOf: "\<not> orderChanged (updatedStagesOf stages)"
  by (simp add: orderChanged_iff staticStagesInProject_updatedStagesOf
      staticStagesInOrder_updatedStagesOf)

lemma reconcileEffect_echo:
  assumes "pentest_stages project' = Some (updatedStagesOf stages)"
  shows "updateProjectCalls (reconcileEffect c' project') = []"
  using assms orderChanged_updatedStagesOf [of stages]
  by (simp add: reconcileEffect_def Let_def noEffects_def)

text \<open>
  Claim C5. For a persisted stage list from which a stage name is absent, the candidate
  view of the reconciliation pass does not contain it; a pass that is not skipped leaves a
  view without it, no pass adds it to a view that lacked it, no corrective write carries
  it, and after mounting the card (whose initial state had re-added a missing static
  stage) the view does not contain it.
\<close>

theorem C5_reconcile_never_resurrects:
  assumes "pentest_stages project = Some stages"
    and "name \<notin> stage ` set stages"
  shows "name \<notin> stage ` set (updatedStagesOf stages)
    \<and> (lastProcessedStagesRef c \<noteq> Some (currentStagesKey (Some stages)) \<longrightarrow>
         name \<notin> stage ` set (pentestStages (component (reconcileEffect c project))))
    \<and> (name \<notin> stage ` set (pentestStages c) \<longrightarrow>
         name \<notin> stage ` set (pentestStages (component (reconcileEffect c project))))
    \<and> (\<forall>pid xs progress.
          (pid, StagesAndProgress xs progress) \<in> set (updateProjectCalls (reconcileEffect c project))
            \<longrightarrow> name \<notin> stage ` set xs)
    \<and> name \<notin> stage ` set (pentestStages (component (mount project)))"
proof -
  have view: "name \<notin> stage ` set (updatedStagesOf stages)"
    using assms(2) names_updatedStagesOf [of stages] by blast
  have processed: "name \<notin> stage ` set (pentestStages (component (reconcileEffect c' project)))"
    if "lastProcessedStagesRef c' \<noteq> Some (currentStagesKey (Some stages))" for c'
    using reconcileEffect_processed(1) [OF assms(1) that] view by simp
  have kept: "name \<notin> stage ` set (pentestStages (component (reconcileEffect c project)))"
    if "name \<notin> stage ` set (pentestStages c)"
  proof (cases "lastProcessedStagesRef c = Some (currentStagesKey (Some stages))")
    case True
    then show ?thesis
      using that assms(1) by (simp add: reconcileEffect_skipped noEffects_def)
  next
    case False
    then show ?thesis by (rule processed)
  qed
  have calls: "name \<notin> stage ` set xs"
    if "(pid, StagesAndProgress xs progress) \<in> set (updateProjectCalls (reconcileEffect c project))"
    for pid xs progress
  proof (cases "lastProcessedStagesRef c = Some (currentStagesKey (Some stages))")
    case True
    then show ?thesis
      using that assms(1) by (simp add: reconcileEffect_skipped noEffects_def)
  next
    case False
    from that have "xs = updatedStagesOf stages"
      unfolding reconcileEffect_processed(2) [OF assms(1) False]
      by (simp split: if_splits)
    with view show ?thesis by simp
  qed
  have "lastProcessedStagesRef (initialCard project) \<noteq> Some (currentStagesKey (Some stages))"
    by (simp add: initialCard_def)
  then have mounted: "name \<notin> stage ` set (pentestStages (component (mount project)))"
    unfolding mount_def by (rule processed)
  from view processed [of c] kept calls mounted show ?thesis by blast
qed

text \<open>
  A list without Kickoff: the initial state of the card holds Kickoff again, the view
  after the first pass does not.
\<close>

theorem C5_reconcile_never_resurrects_witness:
  "''Kickoff'' \<in> stage ` set (pentestStages (initialCard
       \<lparr>project_id = ''p1'',
        pentest_stages = Some
          [\<lparr>stage = ''Enumeration'', done = True,
             date = Some ''2024-01-03T09:00:00.000Z'', isStatic = Some True\<rparr>,
           \<lparr>stage = ''Accounts Received'', done = False, date = None, isStatic = Some True\<rparr>,
           \<lparr>stage = ''Retest'', done = False, date = None, isStatic = Some False\<rparr>],
        tests_checklist = None, start_date = None, completed_date = None,
        leave_days = None\<rparr>))
   \<and> ''Kickoff'' \<notin> stage ` set (pentestStages (component (mount
       \<lparr>project_id = ''p1'',
        pentest_stages = Some
          [\<lparr>stage = ''Enumeration'', done = True,
             date = Some ''2024-01-03T09:00:00.000Z'', isStatic = Some True\<rparr>,
           \<lparr>stage = ''Accounts Received'', done = False, date = None, isStatic = Some True\<rparr>,
           \<lparr>stage = ''Retest'', done = False, date = None, isStatic = Some False\<rparr>],
        tests_checklist = None, start_date = None, completed_date = None,
        leave_days = None\<rparr>)))"
  (is "_ \<in> stage ` set (pentestStages (initialCard ?P)) \<and> _")
proof -
  let ?L = "[\<lparr>stage = ''Enumeration'', done = True,
             date = Some ''2024-01-03T09:00:00.000Z'', isStatic = Some True\<rparr>,
           \<lparr>stage = ''Accounts Received'', done = False, date = None, isStatic = Some True\<rparr>,
           \<lparr>stage = ''Retest'', done = False, date = None, isStatic = Some False\<rparr>]"
  have h1: "pentest_stages ?P = Some ?L" by simp
  have h2: "''Kickoff'' \<notin> stage ` set ?L" by simp
  have before: "''Kickoff'' \<in> stage ` set (pentestStages (initialCard ?P))"
    by code_simp
  from C5_reconcile_never_resurrects [OF h1 h2, of "initialCard ?P"] before
  show ?thesis by simp
qed

text \<open>
  Claim C4. A second pass on an input with the same sequence of stage-name and done-flag
  pairs as the input of the pass before it is skipped: the component state, and with it the
  stage view, stays as the first pass left it, and no \<^verbatim>\<open>updateProject\<close> call is issued.
\<close>

theorem C4_reconcile_idempotent:
  assumes "pentest_stages project1 = Some stages1"
    and "pentest_stages project2 = Some stages2"
    and "map (\<lambda>s. (stage s, done s)) stages2 = map (\<lambda>s. (stage s, done s)) stages1"
  shows "component (reconcileEffect (component (reconcileEffect c project1)) project2) =
           component (reconcileEffect c project1)
         \<and> updateProjectCalls
             (reconcileEffect (component (reconcileEffect c project1)) project2) = []"
proof -
  have "lastProcessedStagesRef (component (reconcileEffect c project1)) =
          Some (currentStagesKey (pentest_stages project2))"
    using assms by (simp add: ref_after_reconcileEffect currentStagesKey_def)
  then have "reconcileEffect (component (reconcileEffect c project1)) project2 =
               noEffects (component (reconcileEffect c project1))"
    by (rule reconcileEffect_skipped)
  then show ?thesis by (simp add: noEffects_def)
qed

text \<open>
  The second input differs from the first in a date only, so its fingerprint is the same.
\<close>

theorem C4_reconcile_idempotent_witness:
  "component
     (reconcileEffect
        (component (mount
           \<lparr>project_id = ''p1'',
            pentest_stages = Some
              [\<lparr>stage = ''Accounts Received'', done = True,
                 date = Some ''2024-01-02T10:00:00.000Z'', isStatic = Some True\<rparr>,
               \<lparr>stage = ''Kickoff'', done = False, date = None, isStatic = Some True\<rparr>],
            tests_checklist = None, start_date = None, completed_date = None,
            leave_days = None\<rparr>))
        \<lparr>project_id = ''p1'',
         pentest_stages = Some
           [\<lparr>stage = ''Accounts Received'', done = True,
              date = Some ''2024-01-05T08:30:00.000Z'', isStatic = Some True\<rparr>,
            \<lparr>stage = ''Kickoff'', done = False, date = None, isStatic = Some True\<rparr>],
         tests_checklist = None, start_date = None, completed_date = None,
         leave_days = None\<rparr>) =
   component (mount
           \<lparr>project_id = ''p1'',
            pentest_stages = Some
              [\<lparr>stage = ''Accounts Received'', done = True,
                 date = Some ''2024-01-02T10:00:00.000Z'', isStatic = Some True\<rparr>,
               \<lparr>stage = ''Kickoff'', done = False, date = None, isStatic = Some True\<rparr>],
            tests_checklist = None, start_date = None, completed_date = None,
            leave_days = None\<rparr>)
   \<and> updateProjectCalls
     (reconcileEffect
        (component (mount
           \<lparr>project_id = ''p1'',
            pentest_stages = Some
              [\<lparr>stage = ''Accounts Received'', done = True,
                 date = Some ''2024-01-02T10:00:00.000Z'', isStatic = Some True\<rparr>,
               \<lparr>stage = ''Kickoff'', done = False, date = None, isStatic = Some True\<rparr>],
            tests_checklist = None, start_date = None, completed_date = None,
            leave_days = None\<rparr>))
        \<lparr>project_id = ''p1'',
         pentest_stages = Some
           [\<lparr>stage = ''Accounts Received'', done = True,
              date = Some ''2024-01-05T08:30:00.000Z'', isStatic = Some True\<rparr>,
            \<lparr>stage = ''Kickoff'', done = False, date = None, isStatic = Some True\<rparr>],
         tests_checklist = None, start_date = None, completed_date = None,
         leave_days = None\<rparr>) = []"
  (is "component (reconcileEffect (component (mount ?P1)) ?P2) = _ \<and> _")
proof -
  let ?L1 = "[\<lparr>stage = ''Accounts Received'', done = True,
                 date = Some ''2024-01-02T10:00:00.000Z'', isStatic = Some True\<rparr>,
               \<lparr>stage = ''Kickoff'', done = False, date = None, isStatic = Some True\<rparr>]"
  let ?L2 = "[\<lparr>stage = ''Accounts Received'', done = True,
              date = Some ''2024-01-05T08:30:00.000Z'', isStatic = Some True\<rparr>,
            \<lparr>stage = ''Kickoff'', done = False, date = None, isStatic = Some True\<rparr>]"
  have h1: "pentest_stages ?P1 = Some ?L1" by simp
  have h2: "pentest_stages ?P2 = Some ?L2" by simp
  have h3: "map (\<lambda>s. (stage s, done s)) ?L2 = map (\<lambda>s. (stage s, done s)) ?L1" by simp
  from C4_reconcile_idempotent [OF h1 h2 h3, of "initialCard ?P1"]
  show ?thesis by (simp only: mount_def)
qed

text \<open>
  Reordering only. For a persisted stage list whose static stages occur once each but not
  in template order, a pass that is not skipped leaves the view
  \<^verbatim>\<open>[...reorderedStaticStages, ...customStages]\<close>: the static stages that are present (each
  with its done flag and date, tagged static) in template order, then the custom stages in
  their original order; and it issues exactly one \<^verbatim>\<open>updateProject\<close> call, which carries
  this view and the value \<^verbatim>\<open>newProgress\<close> of the effect. When the written view comes back
  as the persisted input, the pass over it issues no further call.
\<close>

lemma reconcileEffect_reorder_only:
  assumes "pentest_stages project = Some stages"
    and "distinct (staticStagesInProject stages)"
    and "staticStagesInProject stages \<noteq>
           filter (\<lambda>n. n \<in> set (staticStagesInProject stages)) STATIC_PENTEST_STAGES"
    and "lastProcessedStagesRef c \<noteq> Some (currentStagesKey (Some stages))"
  shows "pentestStages (component (reconcileEffect c project)) =
           reorderedStaticStages stages @ customStages stages
    \<and> map stage (reorderedStaticStages stages) =
          filter (\<lambda>n. n \<in> stage ` set stages) STATIC_PENTEST_STAGES
    \<and> set (reorderedStaticStages stages) =
          set (map (\<lambda>s. s\<lparr>isStatic := Some True\<rparr>)
                 (filter (\<lambda>s. stage s \<in> set STATIC_PENTEST_STAGES) stages))
    \<and> customStages stages =
          map (\<lambda>s. s\<lparr>isStatic := Some False\<rparr>)
            (filter (\<lambda>s. stage s \<notin> set STATIC_PENTEST_STAGES) stages)
    \<and> updateProjectCalls (reconcileEffect c project) =
          [(project_id project,
            StagesAndProgress (reorderedStaticStages stages @ customStages stages)
              (effectProgress (reorderedStaticStages stages @ customStages stages)))]
    \<and> (pentest_stages project' = Some (reorderedStaticStages stages @ customStages stages) \<longrightarrow>
          updateProjectCalls (reconcileEffect c' project') = [])"
proof -
  have len: "length (staticStagesInProject stages) = length (staticStagesInOrder stages)"
    using assms(2) by (rule static_lengths_equal)
  have changed: "orderChanged stages"
    using assms(3) by (simp add: orderChanged_iff [OF len] staticStagesInOrder_alt)
  have "stages \<noteq> []"
    using assms(3) by (auto simp: staticStagesInProject_def)
  with len changed
  have "updateProjectCalls (reconcileEffect c project) =
          [(project_id project,
            StagesAndProgress (updatedStagesOf stages) (effectProgress (updatedStagesOf stages)))]"
    by (simp add: reconcileEffect_processed(2) [OF assms(1,4)])
  moreover have "map stage (reorderedStaticStages stages) =
          filter (\<lambda>n. n \<in> stage ` set stages) STATIC_PENTEST_STAGES"
    using staticStagesInOrder_eq [of stages] by (simp add: staticStagesInOrder_def)
  moreover note reconcileEffect_processed(1) [OF assms(1,4)]
    set_reorderedStaticStages [OF assms(2)] customStages_eq [of stages]
  moreover have "updateProjectCalls (reconcileEffect c' project') = []"
    if "pentest_stages project' = Some (reorderedStaticStages stages @ customStages stages)"
    using that reconcileEffect_echo [of project' stages c']
    by (simp add: updatedStagesOf_def)
  ultimately show ?thesis
    by (simp add: updatedStagesOf_def staticStagesPresent_eq)
qed

text \<open>
  Claim C3, evaluated on the code. The persisted list holds Accounts Received (done)
  before Kickoff (not done), among the custom stages Retest and Debrief. Mounting the card
  leaves Kickoff, Accounts Received, Retest, Debrief and issues exactly one
  \<^verbatim>\<open>updateProject\<close> call with this view, and the pass over the written view issues none: so
  far as the claim says. The progress that the call carries is 25, the share of done
  stages among the four stages of the view; the weighted progress of the view is 5.
\<close>

theorem C3_reorder_write_progress:
  "pentestStages (component (mount
       \<lparr>project_id = ''p1'',
        pentest_stages = Some
          [\<lparr>stage = ''Accounts Received'', done = True,
             date = Some ''2024-01-02T10:00:00.000Z'', isStatic = None\<rparr>,
           \<lparr>stage = ''Retest'', done = False, date = None, isStatic = Some False\<rparr>,
           \<lparr>stage = ''Kickoff'', done = False, date = None, isStatic = None\<rparr>,
           \<lparr>stage = ''Debrief'', done = False, date = None, isStatic = Some False\<rparr>],
        tests_checklist = None, start_date = None, completed_date = None,
        leave_days = None\<rparr>)) =
     [\<lparr>stage = ''Kickoff'', done = False, date = None, isStatic = Some True\<rparr>,
      \<lparr>stage = ''Accounts Received'', done = True,
         date = Some ''2024-01-02T10:00:00.000Z'', isStatic = Some True\<rparr>,
      \<lparr>stage = ''Retest'', done = False, date = None, isStatic = Some False\<rparr>,
      \<lparr>stage = ''Debrief'', done = False, date = None, isStatic = Some False\<rparr>]
   \<and> updateProjectCalls (mount
       \<lparr>project_id = ''p1'',
        pentest_stages = Some
          [\<lparr>stage = ''Accounts Received'', done = True,
             date = Some ''2024-01-02T10:00:00.000Z'', isStatic = None\<rparr>,
           \<lparr>stage = ''Retest'', done = False, date = None, isStatic = Some False\<rparr>,
           \<lparr>stage = ''Kickoff'', done = False, date = None, isStatic = None\<rparr>,
           \<lparr>stage = ''Debrief'', done = False, date = None, isStatic = Some False\<rparr>],
        tests_checklist = None, start_date = None, completed_date = None,
        leave_days = None\<rparr>) =
     [(''p1'',
       StagesAndProgress
         [\<lparr>stage = ''Kickoff'', done = False, date = None, isStatic = Some True\<rparr>,
          \<lparr>stage = ''Accounts Received'', done = True,
             date = Some ''2024-01-02T10:00:00.000Z'', isStatic = Some True\<rparr>,
          \<lparr>stage = ''Retest'', done = False, date = None, isStatic = Some False\<rparr>,
          \<lparr>stage = ''Debrief'', done = False, date = None, isStatic = Some False\<rparr>]
         25)]
   \<and> updateProjectCalls
       (reconcileEffect
          (component (mount
             \<lparr>project_id = ''p1'',
              pentest_stages = Some
                [\<lparr>stage = ''Accounts Received'', done = True,
                   date = Some ''2024-01-02T10:00:00.000Z'', isStatic = None\<rparr>,
                 \<lparr>stage = ''Retest'', done = False, date = None, isStatic = Some False\<rparr>,
                 \<lparr>stage = ''Kickoff'', done = False, date = None, isStatic = None\<rparr>,
                 \<lparr>stage = ''Debrief'', done = False, date = None, isStatic = Some False\<rparr>],
              tests_checklist = None, start_date = None, completed_date = None,
              leave_days = None\<rparr>))
          \<lparr>project_id = ''p1'',
           pentest_stages = Some
             [\<lparr>stage = ''Kickoff'', done = False, date = None, isStatic = Some True\<rparr>,
              \<lparr>stage = ''Accounts Received'', done = True,
                 date = Some ''2024-01-02T10:00:00.000Z'', isStatic = Some True\<rparr>,
              \<lparr>stage = ''Retest'', done = False, date = None, isStatic = Some False\<rparr>,
              \<lparr>stage = ''Debrief'', done = False, date = None, isStatic = Some False\<rparr>],
           tests_checklist = None, start_date = None, completed_date = None,
           leave_days = None\<rparr>) = []
   \<and> calculateWeightedProgress
         [\<lparr>stage = ''Kickoff'', done = False, date = None, isStatic = Some True\<rparr>,
          \<lparr>stage = ''Accounts Received'', done = True,
             date = Some ''2024-01-02T10:00:00.000Z'', isStatic = Some True\<rparr>,
          \<lparr>stage = ''Retest'', done = False, date = None, isStatic = Some False\<rparr>,
          \<lparr>stage = ''Debrief'', done = False, date = None, isStatic = Some False\<rparr>] = 5"
  (is "pentestStages (component (mount ?P)) = ?V \<and> _ \<and>
       updateProjectCalls (reconcileEffect _ ?P') = [] \<and> _")
proof -
  let ?L = "[\<lparr>stage = ''Accounts Received'', done = True,
             date = Some ''2024-01-02T10:00:00.000Z'', isStatic = None\<rparr>,
           \<lparr>stage = ''Retest'', done = False, date = None, isStatic = Some False\<rparr>,
           \<lparr>stage = ''Kickoff'', done = False, date = None, isStatic = None\<rparr>,
           \<lparr>stage = ''Debrief'', done = False, date = None, isStatic = Some False\<rparr>]"
  have h1: "pentest_stages ?P = Some ?L" by simp
  have h2: "distinct (staticStagesInProject ?L)" by code_simp
  have h3: "staticStagesInProject ?L \<noteq>
              filter (\<lambda>n. n \<in> set (staticStagesInProject ?L)) STATIC_PENTEST_STAGES"
    by code_simp
  have h4: "lastProcessedStagesRef (initialCard ?P) \<noteq> Some (currentStagesKey (Some ?L))"
    by (simp add: initialCard_def)
  have view: "reorderedStaticStages ?L @ customStages ?L = ?V" by code_simp
  have progress: "effectProgress ?V = 25" by code_simp
  have h5: "pentest_stages ?P' = Some (reorderedStaticStages ?L @ customStages ?L)"
    by (simp add: view)
  note r = reconcileEffect_reorder_only [OF h1 h2 h3 h4, of ?P' "component (mount ?P)"]
  note a = r [THEN conjunct1]
  note e = r [THEN conjunct2, THEN conjunct2, THEN conjunct2, THEN conjunct2, THEN conjunct1]
  note f = r [THEN conjunct2, THEN conjunct2, THEN conjunct2, THEN conjunct2, THEN conjunct2,
              THEN mp, OF h5]
  have "pentestStages (component (mount ?P)) = ?V"
    unfolding mount_def a view by simp
  moreover have "updateProjectCalls (mount ?P) =
      [(''p1'', StagesAndProgress ?V 25)]"
    unfolding mount_def e view progress by simp
  moreover have "calculateWeightedProgress ?V = 5" by code_simp
  ultimately show ?thesis
    using f by (simp only: simp_thms)
qed

text \<open>
  Claim C1, evaluated on the code. The persisted list holds Accounts Received (done)
  before Kickoff (not done). Mounting the card issues the corrective write with the
  reordered view and the progress 50, the share of done stages among all stages of the
  view; the weighted progress of that view is 5.
\<close>

theorem C1_corrective_write_progress:
  "updateProjectCalls
     (mount \<lparr>project_id = ''p1'',
        pentest_stages = Some
          [\<lparr>stage = ''Accounts Received'', done = True,
             date = Some ''2024-01-02T10:00:00.000Z'', isStatic = Some True\<rparr>,
           \<lparr>stage = ''Kickoff'', done = False, date = None, isStatic = Some True\<rparr>],
        tests_checklist = None, start_date = None, completed_date = None,
        leave_days = None\<rparr>) =
     [(''p1'',
       StagesAndProgress
         [\<lparr>stage = ''Kickoff'', done = False, date = None, isStatic = Some True\<rparr>,
          \<lparr>stage = ''Accounts Received'', done = True,
             date = Some ''2024-01-02T10:00:00.000Z'', isStatic = Some True\<rparr>]
         50)]
   \<and> calculateWeightedProgress
         [\<lparr>stage = ''Kickoff'', done = False, date = None, isStatic = Some True\<rparr>,
          \<lparr>stage = ''Accounts Received'', done = True,
             date = Some ''2024-01-02T10:00:00.000Z'', isStatic = Some True\<rparr>] = 5"
  by code_simp

section \<open>Properties of the initial stage view\<close>

lemma fold_existing_None:
  "fold (\<lambda>s m. m(stage s \<mapsto> s)) xs m0 n = None \<longleftrightarrow> n \<notin> stage ` set xs \<and> m0 n = None"
  by (induction xs arbitrary: m0) auto

lemma fold_existing_Some:
  "fold (\<lambda>s m. m(stage s \<mapsto> s)) xs m0 n = Some x \<Longrightarrow>
     (x \<in> set xs \<and> stage x = n) \<or> m0 n = Some x"
proof (induction xs arbitrary: m0)
  case Nil
  then show ?case by simp
next
  case (Cons y ys)
  from Cons.IH [of "m0(stage y \<mapsto> y)"] Cons.prems
  show ?case by (auto split: if_splits)
qed

lemma existingMap_None:
  "existingMap e n = None \<longleftrightarrow> n \<notin> stage ` set (case e of Some xs \<Rightarrow> xs | None \<Rightarrow> [])"
  by (cases e) (auto simp: existingMap_def fold_existing_None)

lemma existingMap_Some:
  assumes "existingMap e n = Some x"
  shows "x \<in> set (case e of Some xs \<Rightarrow> xs | None \<Rightarrow> []) \<and> stage x = n"
proof (cases e)
  case None
  with assms show ?thesis by (simp add: existingMap_def)
next
  case (Some xs)
  with assms have "fold (\<lambda>s m. m(stage s \<mapsto> s)) xs Map.empty n = Some x"
    by (simp add: existingMap_def split: if_splits)
  from fold_existing_Some [OF this] Some show ?thesis by simp
qed

lemma length_STATIC_PENTEST_STAGES: "length STATIC_PENTEST_STAGES = 15"
  by (simp add: STATIC_PENTEST_STAGES_def)

lemma stage_initStaticStages: "map stage (initStaticStages e) = STATIC_PENTEST_STAGES"
proof -
  have "stage (case existingMap e name of
                 Some existing \<Rightarrow> existing\<lparr>isStatic := Some True\<rparr>
               | None \<Rightarrow> \<lparr>stage = name, done = False, date = None, isStatic = Some True\<rparr>) = name"
    for name
    by (cases "existingMap e name") (auto dest: existingMap_Some)
  then show ?thesis
    by (simp add: initStaticStages_def o_def)
qed

text \<open>
  Claim C10. The initial stage view is the list of static stages followed by the custom
  stages of the persisted input in their original order. The static part has exactly the
  15 template names in template order: a template stage missing from the persisted input
  appears as a fresh entry that is not done and has no date, one that is present appears
  as a persisted entry of that name with its done flag and date, tagged static. So every
  template name is in the output, whatever the persisted input lacks.
\<close>

theorem C10_initialize_restores_template:
  assumes "xs = (case e of Some ys \<Rightarrow> ys | None \<Rightarrow> [])"
  shows "initializePentestStages e = initStaticStages e @ initCustomStages e
    \<and> map stage (initStaticStages e) = STATIC_PENTEST_STAGES
    \<and> length STATIC_PENTEST_STAGES = 15
    \<and> initCustomStages e = filter (\<lambda>s. stage s \<notin> set STATIC_PENTEST_STAGES) xs
    \<and> set STATIC_PENTEST_STAGES \<subseteq> stage ` set (initializePentestStages e)
    \<and> (name \<in> set STATIC_PENTEST_STAGES \<and> name \<notin> stage ` set xs \<longrightarrow>
          \<lparr>stage = name, done = False, date = None, isStatic = Some True\<rparr>
            \<in> set (initStaticStages e))
    \<and> (name \<in> set STATIC_PENTEST_STAGES \<and> name \<in> stage ` set xs \<longrightarrow>
          (\<exists>x \<in> set xs. stage x = name \<and>
             x\<lparr>isStatic := Some True\<rparr> \<in> set (initStaticStages e)))"
proof (intro conjI impI)
  show "initializePentestStages e = initStaticStages e @ initCustomStages e"
    by (simp add: initializePentestStages_def)
  show "map stage (initStaticStages e) = STATIC_PENTEST_STAGES"
    by (rule stage_initStaticStages)
  show "length STATIC_PENTEST_STAGES = 15"
    by (rule length_STATIC_PENTEST_STAGES)
  show "initCustomStages e = filter (\<lambda>s. stage s \<notin> set STATIC_PENTEST_STAGES) xs"
    using assms by (cases e) (simp_all add: initCustomStages_def)
  have "set STATIC_PENTEST_STAGES = stage ` set (initStaticStages e)"
    using stage_initStaticStages [of e] by (metis set_map)
  then show "set STATIC_PENTEST_STAGES \<subseteq> stage ` set (initializePentestStages e)"
    by (auto simp: initializePentestStages_def)
next
  assume "name \<in> set STATIC_PENTEST_STAGES \<and> name \<notin> stage ` set xs"
  then have "name \<in> set STATIC_PENTEST_STAGES" and "existingMap e name = None"
    using assms by (simp_all add: existingMap_None)
  then show "\<lparr>stage = name, done = False, date = None, isStatic = Some True\<rparr>
            \<in> set (initStaticStages e)"
    by (force simp: initStaticStages_def image_iff)
next
  assume h: "name \<in> set STATIC_PENTEST_STAGES \<and> name \<in> stage ` set xs"
  then obtain x where x: "existingMap e name = Some x"
    using assms existingMap_None [of e name] by (cases "existingMap e name") auto
  from existingMap_Some [OF x] assms have "x \<in> set xs" and "stage x = name" by simp_all
  moreover from h x have "x\<lparr>isStatic := Some True\<rparr> \<in> set (initStaticStages e)"
    by (force simp: initStaticStages_def image_iff)
  ultimately show "\<exists>x \<in> set xs. stage x = name \<and>
             x\<lparr>isStatic := Some True\<rparr> \<in> set (initStaticStages e)"
    by blast
qed

text \<open>
  A persisted list with Enumeration (done) and a custom stage, but without Kickoff.
\<close>

theorem C10_initialize_restores_template_witness:
  "\<lparr>stage = ''Kickoff'', done = False, date = None, isStatic = Some True\<rparr>
     \<in> set (initializePentestStages (Some
         [\<lparr>stage = ''Enumeration'', done = True,
            date = Some ''2024-01-03T09:00:00.000Z'', isStatic = None\<rparr>,
          \<lparr>stage = ''Retest'', done = False, date = None, isStatic = Some False\<rparr>]))
   \<and> \<lparr>stage = ''Enumeration'', done = True,
        date = Some ''2024-01-03T09:00:00.000Z'', isStatic = Some True\<rparr>
     \<in> set (initializePentestStages (Some
         [\<lparr>stage = ''Enumeration'', done = True,
            date = Some ''2024-01-03T09:00:00.000Z'', isStatic = None\<rparr>,
          \<lparr>stage = ''Retest'', done = False, date = None, isStatic = Some False\<rparr>]))
   \<and> map stage (initializePentestStages (Some
         [\<lparr>stage = ''Enumeration'', done = True,
            date = Some ''2024-01-03T09:00:00.000Z'', isStatic = None\<rparr>,
          \<lparr>stage = ''Retest'', done = False, date = None, isStatic = Some False\<rparr>]))
       = STATIC_PENTEST_STAGES @ [''Retest'']"
  (is "?k \<in> set (initializePentestStages (Some ?L)) \<and> ?en \<in> _ \<and> _")
proof -
  have h: "?L = (case Some ?L of Some ys \<Rightarrow> ys | None \<Rightarrow> [])" by simp
  have k: "''Kickoff'' \<in> set STATIC_PENTEST_STAGES \<and> ''Kickoff'' \<notin> stage ` set ?L"
    by (simp add: STATIC_PENTEST_STAGES_def)
  have en: "''Enumeration'' \<in> set STATIC_PENTEST_STAGES \<and> ''Enumeration'' \<in> stage ` set ?L"
    by (simp add: STATIC_PENTEST_STAGES_def)
  have c: "filter (\<lambda>s. stage s \<notin> set STATIC_PENTEST_STAGES) ?L =
             [\<lparr>stage = ''Retest'', done = False, date = None, isStatic = Some False\<rparr>]"
    by (simp add: STATIC_PENTEST_STAGES_def)
  from C10_initialize_restores_template [OF h, of "''Kickoff''"]
    C10_initialize_restores_template [OF h, of "''Enumeration''"] k en c
  show ?thesis by auto
qed

section \<open>Properties of the lifecycle controller\<close>

lemma enumerate_filter_above:
  "index < n \<Longrightarrow> map snd (filter (\<lambda>(i, _). i \<noteq> index) (enumerate n xs)) = xs"
  by (induction xs arbitrary: n) auto

lemma enumerate_filter_ne:
  "n \<le> index \<Longrightarrow>
     map snd (filter (\<lambda>(i, _). i \<noteq> index) (enumerate n xs)) =
       take (index - n) xs @ drop (Suc (index - n)) xs"
proof (induction xs arbitrary: n)
  case Nil
  show ?case by simp
next
  case (Cons x xs)
  show ?case
  proof (cases "n = index")
    case True
    then show ?thesis by (simp add: enumerate_filter_above)
  next
    case False
    with Cons.prems have le: "Suc n \<le> index" by simp
    then obtain k where k: "index - n = Suc k" and k': "index - Suc n = k"
      by (cases "index - n") auto
    from Cons.IH [OF le] False show ?thesis
      by (simp add: k k')
  qed
qed

lemma filterIndexNe_eq: "filterIndexNe index xs = take index xs @ drop (Suc index) xs"
  using enumerate_filter_ne [of 0 index xs] by (simp add: filterIndexNe_def)

text \<open>
  Claim C9. \<^verbatim>\<open>handleDeleteStage(index)\<close> on a stage whose \<^verbatim>\<open>isStatic\<close> is true is refused
  with the alert \<^verbatim>\<open>Cannot delete static pentesting stages\<close>: no \<^verbatim>\<open>updateProject\<close> call
  is issued and the component state, with its stage list, is unchanged. On any other stage
  it removes the stage at that index, recomputes the weighted progress of the remaining
  list and issues one \<^verbatim>\<open>updateProject\<close> call with both.
\<close>

theorem C9_delete_stage:
  assumes "index < length (pentestStages c)"
  shows "(isStatic (pentestStages c ! index) = Some True \<longrightarrow>
            handleDeleteStage ok c project index =
              Inr \<lparr>component = c, updateProjectCalls = [],
                   alerts = [''Cannot delete static pentesting stages''],
                   onUpdateCalled = False\<rparr>)
       \<and> (isStatic (pentestStages c ! index) \<noteq> Some True \<longrightarrow>
            (\<exists>eff. handleDeleteStage ok c project index = Inr eff
               \<and> pentestStages (component eff) =
                   take index (pentestStages c) @ drop (Suc index) (pentestStages c)
               \<and> updateProjectCalls eff =
                   [(project_id project,
                     StagesAndProgress
                       (take index (pentestStages c) @ drop (Suc index) (pentestStages c))
                       (calculateWeightedProgress
                          (take index (pentestStages c) @ drop (Suc index) (pentestStages c))))]))"
  using assms
  by (simp add: handleDeleteStage_def noEffects_def afterUpdate_def Let_def
      filterIndexNe_eq inlineWeightedProgress_eq)


text \<open>
  Kickoff (static, done) and the custom stage Retest: deleting index 0 is refused, deleting
  index 1 leaves Kickoff alone, whose weighted progress is 10.
\<close>

theorem C9_delete_stage_witness:
  "handleDeleteStage True
     \<lparr>pentestStages =
        [\<lparr>stage = ''Kickoff'', done = True, date = Some ''2024-01-02T10:00:00.000Z'',
           isStatic = Some True\<rparr>,
         \<lparr>stage = ''Retest'', done = False, date = None, isStatic = Some False\<rparr>],
      tests = [], isSaving = False, leaveDays = 0, isCompleted = False,
      showCompleteModal = False, lastProcessedStagesRef = None\<rparr>
     \<lparr>project_id = ''p1'', pentest_stages = None, tests_checklist = None,
      start_date = None, completed_date = None, leave_days = None\<rparr> 0 =
   Inr \<lparr>component =
          \<lparr>pentestStages =
             [\<lparr>stage = ''Kickoff'', done = True, date = Some ''2024-01-02T10:00:00.000Z'',
                isStatic = Some True\<rparr>,
              \<lparr>stage = ''Retest'', done = False, date = None, isStatic = Some False\<rparr>],
           tests = [], isSaving = False, leaveDays = 0, isCompleted = False,
           showCompleteModal = False, lastProcessedStagesRef = None\<rparr>,
        updateProjectCalls = [],
        alerts = [''Cannot delete static pentesting stages''],
        onUpdateCalled = False\<rparr>
   \<and> (\<exists>eff.
        handleDeleteStage True
          \<lparr>pentestStages =
             [\<lparr>stage = ''Kickoff'', done = True, date = Some ''2024-01-02T10:00:00.000Z'',
                isStatic = Some True\<rparr>,
              \<lparr>stage = ''Retest'', done = False, date = None, isStatic = Some False\<rparr>],
           tests = [], isSaving = False, leaveDays = 0, isCompleted = False,
           showCompleteModal = False, lastProcessedStagesRef = None\<rparr>
          \<lparr>project_id = ''p1'', pentest_stages = None, tests_checklist = None,
           start_date = None, completed_date = None, leave_days = None\<rparr> 1 = Inr eff
        \<and> pentestStages (component eff) =
            [\<lparr>stage = ''Kickoff'', done = True, date = Some ''2024-01-02T10:00:00.000Z'',
               isStatic = Some True\<rparr>]
        \<and> updateProjectCalls eff =
            [(''p1'',
              StagesAndProgress
                [\<lparr>stage = ''Kickoff'', done = True,
                   date = Some ''2024-01-02T10:00:00.000Z'', isStatic = Some True\<rparr>]
                10)])"
  (is "handleDeleteStage True ?C ?P 0 = _ \<and> _")
proof -
  have h0: "0 < length (pentestStages ?C)" and h1: "1 < length (pentestStages ?C)"
    by simp_all
  have s0: "isStatic (pentestStages ?C ! 0) = Some True"
    and s1: "isStatic (pentestStages ?C ! 1) \<noteq> Some True"
    by simp_all
  have p: "calculateWeightedProgress
             [\<lparr>stage = ''Kickoff'', done = True, date = Some ''2024-01-02T10:00:00.000Z'',
                isStatic = Some True\<rparr>] = 10"
    by code_simp
  from C9_delete_stage [OF h0, of True ?P] C9_delete_stage [OF h1, of True ?P] s0 s1 p
  show ?thesis by simp
qed

text \<open>
  Claim C7. \<^verbatim>\<open>handleCompleteProject\<close>, when no save is in flight, issues one
  \<^verbatim>\<open>updateProject\<close> call with status \<^verbatim>\<open>past\<close>, the completion date \<open>now\<close>, the leave days
  of the modal and \<open>business_days_worked = max 0 (calculateBusinessDays start now - leaveDays)\<close>;
  this needs a start date or non-negative leave days. With a Monday start, \<open>now\<close> on the
  Friday of the same week and one leave day, the value is 4.
\<close>

theorem C7_complete_engagement:
  assumes "\<not> isSaving c"
    and "start_date project \<noteq> None \<or> 0 \<le> leaveDays c"
  shows "updateProjectCalls (handleCompleteProject toISOString now ok c project) =
           [(project_id project,
             Completion ''past'' (toISOString now) (leaveDays c)
               (max 0 (int (calculateBusinessDays (start_date project) (Some now))
                        - leaveDays c)))]
       \<and> (start_date project = Some mon \<and> getDay mon = 1 \<and> dayIndex now = dayIndex mon + 4
            \<and> leaveDays c = 1 \<longrightarrow>
          updateProjectCalls (handleCompleteProject toISOString now ok c project) =
            [(project_id project, Completion ''past'' (toISOString now) 1 4)])"
proof -
  have eq: "updateProjectCalls (handleCompleteProject toISOString now ok c project) =
           [(project_id project,
             Completion ''past'' (toISOString now) (leaveDays c)
               (max 0 (int (calculateBusinessDays (start_date project) (Some now))
                        - leaveDays c)))]"
  proof (cases "start_date project")
    case None
    with assms(2) have "0 \<le> leaveDays c" by simp
    with None assms(1) show ?thesis
      by (simp add: handleCompleteProject_def afterUpdate_def Let_def
          calculateBusinessDays_def)
  next
    case (Some sd)
    with assms(1) show ?thesis
      by (simp add: handleCompleteProject_def afterUpdate_def Let_def)
  qed
  show ?thesis
    unfolding eq by (auto simp: calculateBusinessDays_monday_friday)
qed

text \<open>
  Start on 2024-01-01 09:00 (a Monday), completion on 2024-01-05 17:00 (the Friday), one
  leave day.
\<close>

theorem C7_complete_engagement_witness:
  "updateProjectCalls
     (handleCompleteProject (\<lambda>d. ''2024-01-05T17:00:00.000Z'') 1704474000000 True
        \<lparr>pentestStages = [], tests = [], isSaving = False, leaveDays = 1,
         isCompleted = False, showCompleteModal = True, lastProcessedStagesRef = None\<rparr>
        \<lparr>project_id = ''p1'', pentest_stages = None, tests_checklist = None,
         start_date = Some 1704099600000, completed_date = None, leave_days = None\<rparr>) =
     [(''p1'', Completion ''past'' ''2024-01-05T17:00:00.000Z'' 1 4)]"
  (is "updateProjectCalls (handleCompleteProject ?iso ?now True ?C ?P) = _")
proof -
  have h1: "\<not> isSaving ?C" by simp
  have h2: "start_date ?P \<noteq> None \<or> 0 \<le> leaveDays ?C" by simp
  have h3: "start_date ?P = Some 1704099600000 \<and> getDay 1704099600000 = 1
              \<and> dayIndex ?now = dayIndex 1704099600000 + 4 \<and> leaveDays ?C = 1"
    by (simp add: getDay_def dayIndex_def weekdayOfIndex_def MS_PER_DAY_def)
  note r = C7_complete_engagement [OF h1 h2, of ?iso ?now True 1704099600000]
  from r [THEN conjunct2, THEN mp, OF h3]
  show ?thesis by simp
qed


text \<open>
  What the two toggle handlers do to the toggled entry. A stage gets the current timestamp
  when it becomes done and loses its date when it becomes undone; a test item gets the
  current timestamp when it becomes done and keeps whatever date it had when it becomes
  undone.
\<close>

lemma handleToggleStage_entry:
  assumes "\<not> isSaving c" and "index < length (pentestStages c)"
  shows "\<exists>eff. handleToggleStage toISOString now ok c project index = Inr eff
    \<and> length (pentestStages (component eff)) = length (pentestStages c)
    \<and> stage (pentestStages (component eff) ! index) = stage (pentestStages c ! index)
    \<and> done (pentestStages (component eff) ! index) = (\<not> done (pentestStages c ! index))
    \<and> date (pentestStages (component eff) ! index) =
        (if done (pentestStages c ! index) then None else Some (toISOString now))
    \<and> (\<forall>j. j \<noteq> index \<longrightarrow> pentestStages (component eff) ! j = pentestStages c ! j)"
  using assms by (simp add: handleToggleStage_def afterUpdate_def Let_def)

lemma handleToggleTest_entry:
  assumes "\<not> isSaving c" and "index < length (tests c)"
  shows "\<exists>eff. handleToggleTest toISOString now ok c project index = Inr eff
    \<and> length (tests (component eff)) = length (tests c)
    \<and> test (tests (component eff) ! index) = test (tests c ! index)
    \<and> Test.done (tests (component eff) ! index) = (\<not> Test.done (tests c ! index))
    \<and> Test.date (tests (component eff) ! index) =
        (if Test.done (tests c ! index) then Test.date (tests c ! index)
         else Some (toISOString now))
    \<and> (\<forall>j. j \<noteq> index \<longrightarrow> tests (component eff) ! j = tests c ! j)"
  using assms by (simp add: handleToggleTest_def afterUpdate_def Let_def)

text \<open>
  Claim C6, evaluated on the code. A test item and a stage, both done with a date, are
  toggled back to undone. The stage's date is cleared; the test item is persisted with
  \<open>done = False\<close> and its old date.
\<close>

theorem C6_toggle_test_keeps_date:
  "handleToggleTest (\<lambda>d. ''2024-01-05T17:00:00.000Z'') 1704474000000 True
     \<lparr>pentestStages =
        [\<lparr>stage = ''Kickoff'', done = True, date = Some ''2024-01-02T10:00:00.000Z'',
           isStatic = Some True\<rparr>],
      tests = [\<lparr>test = ''nmap scan'', done = True,
                date = Some ''2024-01-02T10:00:00.000Z''\<rparr>],
      isSaving = False, leaveDays = 0, isCompleted = False,
      showCompleteModal = False, lastProcessedStagesRef = None\<rparr>
     \<lparr>project_id = ''p1'', pentest_stages = None, tests_checklist = None,
      start_date = None, completed_date = None, leave_days = None\<rparr> 0 =
   Inr \<lparr>component =
          \<lparr>pentestStages =
             [\<lparr>stage = ''Kickoff'', done = True, date = Some ''2024-01-02T10:00:00.000Z'',
                isStatic = Some True\<rparr>],
           tests = [\<lparr>test = ''nmap scan'', done = False,
                     date = Some ''2024-01-02T10:00:00.000Z''\<rparr>],
           isSaving = False, leaveDays = 0, isCompleted = False,
           showCompleteModal = False, lastProcessedStagesRef = None\<rparr>,
        updateProjectCalls =
          [(''p1'', TestsChecklist
             [\<lparr>test = ''nmap scan'', done = False,
                date = Some ''2024-01-02T10:00:00.000Z''\<rparr>])],
        alerts = [], onUpdateCalled = True\<rparr>
   \<and> handleToggleStage (\<lambda>d. ''2024-01-05T17:00:00.000Z'') 1704474000000 True
     \<lparr>pentestStages =
        [\<lparr>stage = ''Kickoff'', done = True, date = Some ''2024-01-02T10:00:00.000Z'',
           isStatic = Some True\<rparr>],
      tests = [\<lparr>test = ''nmap scan'', done = True,
                date = Some ''2024-01-02T10:00:00.000Z''\<rparr>],
      isSaving = False, leaveDays = 0, isCompleted = False,
      showCompleteModal = False, lastProcessedStagesRef = None\<rparr>
     \<lparr>project_id = ''p1'', pentest_stages = None, tests_checklist = None,
      start_date = None, completed_date = None, leave_days = None\<rparr> 0 =
   Inr \<lparr>component =
          \<lparr>pentestStages =
             [\<lparr>stage = ''Kickoff'', done = False, date = None, isStatic = Some True\<rparr>],
           tests = [\<lparr>test = ''nmap scan'', done = True,
                     date = Some ''2024-01-02T10:00:00.000Z''\<rparr>],
           isSaving = False, leaveDays = 0, isCompleted = False,
           showCompleteModal = False, lastProcessedStagesRef = None\<rparr>,
        updateProjectCalls =
          [(''p1'', StagesAndProgress
             [\<lparr>stage = ''Kickoff'', done = False, date = None, isStatic = Some True\<rparr>] 0)],
        alerts = [], onUpdateCalled = True\<rparr>"
  by code_simp

end
